theory Spec2Isabelle
  imports Main "HOL-Library.AList"
begin

section \<open>Python values\<close>

text \<open>
  \<^verbatim>\<open>yaml.safe_load\<close>, \<^verbatim>\<open>json.load\<close> and \<^verbatim>\<open>response.json()\<close> all return plain Python
  values. A dict is an association list in insertion order (keys are strings, as in
  every document the scripts read); \<open>map_of\<close> is \<^verbatim>\<open>d.get(k)\<close> and \<open>AList.update\<close> is
  \<^verbatim>\<open>d[k] = v\<close>, which keeps the position of an existing key. Floats are left out.
\<close>

datatype pyval =
    PNone
  | PBool bool
  | PInt int
  | PStr string
  | PList "pyval list"
  | PDict "(string \<times> pyval) list"

text \<open>Truth value of a Python object, as tested by \<^verbatim>\<open>if x:\<close> and \<^verbatim>\<open>not x\<close>.\<close>

fun py_truthy :: "pyval \<Rightarrow> bool" where
  "py_truthy PNone = False"
| "py_truthy (PBool b) = b"
| "py_truthy (PInt i) = (i \<noteq> 0)"
| "py_truthy (PStr s) = (s \<noteq> [])"
| "py_truthy (PList xs) = (xs \<noteq> [])"
| "py_truthy (PDict d) = (d \<noteq> [])"

text \<open>
  A command-line value is \<^verbatim>\<open>None\<close> or a \<^verbatim>\<open>str\<close> (argparse with an
  \<^verbatim>\<open>os.getenv\<close> default); it is falsy when it is \<^verbatim>\<open>None\<close> or empty.
\<close>

fun str_truthy :: "string option \<Rightarrow> bool" where
  "str_truthy None = False"
| "str_truthy (Some s) = (s \<noteq> [])"

subsection \<open>String operations\<close>

text \<open>
  A string is the list of the bytes of its UTF-8 encoding. The substring test and the
  split at \<open>:\<close> give on the bytes what they give on the characters, since no
  character's encoding starts inside another's and \<open>:\<close> is one byte. \<^verbatim>\<open>str.lower()\<close>
  belongs to the Python runtime and is not modelled: the rewriter takes it as the
  parameter \<open>lower\<close>, and what is proved of the rewriter holds for every such
  function. The example runs use \<open>ascii_lower\<close>, which is \<^verbatim>\<open>str.lower()\<close> on the ASCII
  text of the examples.
\<close>

definition ascii_lower_char :: "char \<Rightarrow> char" where
  "ascii_lower_char c =
     (if 65 \<le> (of_char c :: nat) \<and> (of_char c :: nat) \<le> 90
      then char_of ((of_char c :: nat) + 32) else c)"

definition ascii_lower :: "string \<Rightarrow> string" where
  "ascii_lower s = map ascii_lower_char s"

text \<open>\<^verbatim>\<open>s.startswith(p)\<close> and the substring test \<^verbatim>\<open>p in s\<close>.\<close>

definition startswith :: "string \<Rightarrow> string \<Rightarrow> bool" where
  "startswith s p = (take (length p) s = p)"

fun py_in :: "string \<Rightarrow> string \<Rightarrow> bool" where
  "py_in p [] = (p = [])"
| "py_in p (c # s) = (startswith (c # s) p \<or> py_in p s)"

text \<open>\<^verbatim>\<open>s.split(sep)\<close> for a one-character separator: never an empty list.\<close>

fun split_on :: "char \<Rightarrow> string \<Rightarrow> string list" where
  "split_on sep [] = [[]]"
| "split_on sep (c # s) =
     (if c = sep then [] # split_on sep s
      else (case split_on sep s of
              [] \<Rightarrow> [[c]]
            | w # ws \<Rightarrow> (c # w) # ws))"

section \<open>Exceptions, messages and requests\<close>

text \<open>A response of the \<^verbatim>\<open>requests\<close> library: status code, body text, and the body
  parsed as JSON when it parses. Of the exceptions, \<open>HTTPError\<close> is what
  \<^verbatim>\<open>raise_for_status\<close> raises, with the response it was called on, and
  \<open>RequestException\<close> is what a request raises instead of returning, with the
  response it carries in its \<^verbatim>\<open>response\<close> attribute, if any (a redirect loop carries
  the last redirect; a refused connection carries none).\<close>

record response =
  status_code :: nat
  body_text :: string
  body_json :: "pyval option"

datatype exn =
    AttributeError
  | TypeError
  | IndexError
  | KeyError
  | OSError
  | YAMLError
  | JSONDecodeError
  | RequestException "response option"
  | HTTPError response

text \<open>The requests the scripts send. A request body is the Python dict handed to
  \<^verbatim>\<open>json=\<close>; a PUT goes to \<^verbatim>\<open>/api/stacks/{stack_id}\<close>.\<close>

datatype call =
    GetStacks
  | PostStack pyval
  | PutStack pyval pyval

datatype msg =
    MissingArguments "string list"
  | ComposeFileNotFound
  | ComposeReadError
  | TagUpdateSkipped
  | ImageUpdated string string
  | StackIdError exn
  | StackCreated "string option"
  | CreateError exn
  | StackUpdated
  | UpdateError exn
  | ResponseBody string
  | UpdatingExisting "string option" pyval
  | CreatingNew "string option"
  | DeploymentCompleted
  | UsingProvidedTag string
  | UsingArtifactTag string
  | ArtifactWarning exn
  | QueryingRegistry
  | UsingFallbackTag string
  | NoPreviousTag
  | StackNotFound "string option"
  | RollingBack "string option" string
  | RollbackCompleted
  | HistoryWarning exn

text \<open>What a run does that the outside can see, in order: lines printed and HTTP
  requests sent.\<close>

datatype event = Print msg | Request call

text \<open>How a computation stops early: \<^verbatim>\<open>sys.exit(n)\<close> or an exception nobody catches.\<close>

datatype stop = SysExit nat | Uncaught exn

section \<open>The image reference rewriter\<close>

text \<open>\<^verbatim>\<open>update_image_tags\<close> is given twice: here on a document as a value, in which
  every mapping occurs in one place, and below (\<open>update_image_tags_in_place\<close>) on a
  document in which a mapping may be shared between several places, as the anchors and
  aliases of YAML make it. The two do the same on a document without sharing
  (\<open>update_image_tags_unshared\<close>).\<close>

text \<open>\<^verbatim>\<open>'image' in service_config\<close>: key membership for a dict, substring test for a
  string, element test for a list, \<^verbatim>\<open>TypeError\<close> for anything else.\<close>

fun has_image :: "pyval \<Rightarrow> exn + bool" where
  "has_image (PDict d) = Inr (''image'' \<in> set (map fst d))"
| "has_image (PStr s) = Inr (py_in ''image'' s)"
| "has_image (PList xs) = Inr (PStr ''image'' \<in> set xs)"
| "has_image _ = Inl TypeError"

text \<open>One turn of the loop of \<^verbatim>\<open>update_image_tags\<close>, for the service
  \<open>service_name\<close> with configuration \<open>service_config\<close>.\<close>

definition update_service ::
  "(string \<Rightarrow> string) \<Rightarrow> string \<Rightarrow> string \<Rightarrow> string \<Rightarrow> pyval
     \<Rightarrow> event list \<times> (exn + pyval)" where
  "update_service lower project_path image_tag service_name service_config =
     (case has_image service_config of
        Inl e \<Rightarrow> ([], Inl e)
      | Inr False \<Rightarrow> ([], Inr service_config)
      | Inr True \<Rightarrow>
          (case service_config of
             PDict cfg \<Rightarrow>
               (case map_of cfg ''image'' of
                  None \<Rightarrow> ([], Inl KeyError)
                | Some (PStr img) \<Rightarrow>
                    if py_in (lower project_path) (lower img) then
                      (case split_on CHR '':'' img of
                         [] \<Rightarrow> ([], Inl IndexError)
                       | base_image # _ \<Rightarrow>
                           ([Print (ImageUpdated service_name (base_image @ '':'' @ image_tag))],
                            Inr (PDict (AList.update ''image''
                                   (PStr (base_image @ '':'' @ image_tag)) cfg))))
                    else ([], Inr service_config)
                | Some _ \<Rightarrow> ([], Inl AttributeError))
           | _ \<Rightarrow> ([], Inl TypeError)))"

text \<open>The loop over \<^verbatim>\<open>services.items()\<close>; an exception ends it, and what was printed
  before stays printed.\<close>

fun update_services ::
  "(string \<Rightarrow> string) \<Rightarrow> string \<Rightarrow> string \<Rightarrow> (string \<times> pyval) list
     \<Rightarrow> event list \<times> (exn + (string \<times> pyval) list)" where
  "update_services lower project_path image_tag [] = ([], Inr [])"
| "update_services lower project_path image_tag ((service_name, service_config) # rest) =
     (case update_service lower project_path image_tag service_name service_config of
        (out, Inl e) \<Rightarrow> (out, Inl e)
      | (out, Inr service_config') \<Rightarrow>
          (case update_services lower project_path image_tag rest of
             (out', Inl e) \<Rightarrow> (out @ out', Inl e)
           | (out', Inr rest') \<Rightarrow> (out @ out', Inr ((service_name, service_config') # rest'))))"

definition update_image_tags ::
  "(string \<Rightarrow> string) \<Rightarrow> pyval \<Rightarrow> string option \<Rightarrow> string option \<Rightarrow> string option
     \<Rightarrow> event list \<times> (exn + pyval)" where
  "update_image_tags lower compose_data registry_url project_path image_tag =
     (if \<not> str_truthy registry_url \<or> \<not> str_truthy project_path \<or> \<not> str_truthy image_tag
      then ([Print TagUpdateSkipped], Inr compose_data)
      else
        (case (project_path, image_tag) of
           (Some p, Some t) \<Rightarrow>
             (case compose_data of
                PDict doc \<Rightarrow>
                  (case map_of doc ''services'' of
                     None \<Rightarrow> ([], Inr compose_data)
                   | Some (PDict services) \<Rightarrow>
                       (case update_services lower p t services of
                          (out, Inl e) \<Rightarrow> (out, Inl e)
                        | (out, Inr services') \<Rightarrow>
                            (out, Inr (PDict (AList.update ''services'' (PDict services') doc))))
                   | Some _ \<Rightarrow> ([], Inl AttributeError))
              | _ \<Rightarrow> ([], Inl AttributeError))
         | _ \<Rightarrow> ([Print TagUpdateSkipped], Inr compose_data)))"

subsection \<open>Vocabulary for stating what the rewriter does\<close>

text \<open>The services of a composition document, the image reference of a service, the
  part of a reference before its first \<open>:\<close>, and the test the rewriter applies to decide
  whether a service belongs to the project.\<close>

definition services_of :: "pyval \<Rightarrow> (string \<times> pyval) list" where
  "services_of compose_data =
     (case compose_data of
        PDict doc \<Rightarrow> (case map_of doc ''services'' of Some (PDict services) \<Rightarrow> services | _ \<Rightarrow> [])
      | _ \<Rightarrow> [])"

definition field :: "pyval \<Rightarrow> string \<Rightarrow> pyval option" where
  "field d k = (case d of PDict kvs \<Rightarrow> map_of kvs k | _ \<Rightarrow> None)"

definition keys :: "pyval \<Rightarrow> string list" where
  "keys d = (case d of PDict kvs \<Rightarrow> map fst kvs | _ \<Rightarrow> [])"

definition image_of :: "pyval \<Rightarrow> string option" where
  "image_of service_config =
     (case service_config of
        PDict cfg \<Rightarrow> (case map_of cfg ''image'' of Some (PStr img) \<Rightarrow> Some img | _ \<Rightarrow> None)
      | _ \<Rightarrow> None)"

definition repository :: "string \<Rightarrow> string" where
  "repository img = takeWhile (\<lambda>c. c \<noteq> CHR '':'') img"

definition matches :: "(string \<Rightarrow> string) \<Rightarrow> string \<Rightarrow> pyval \<Rightarrow> bool" where
  "matches lower project_path service_config =
     (case image_of service_config of
        Some img \<Rightarrow> py_in (lower project_path) (lower img)
      | None \<Rightarrow> False)"

definition set_tag :: "string \<Rightarrow> pyval \<Rightarrow> pyval" where
  "set_tag image_tag service_config =
     (case service_config of
        PDict cfg \<Rightarrow>
          (case map_of cfg ''image'' of
             Some (PStr img) \<Rightarrow>
               PDict (AList.update ''image'' (PStr (repository img @ '':'' @ image_tag)) cfg)
           | _ \<Rightarrow> service_config)
      | _ \<Rightarrow> service_config)"

definition retag_service ::
  "(string \<Rightarrow> string) \<Rightarrow> string \<Rightarrow> string \<Rightarrow> string \<times> pyval \<Rightarrow> string \<times> pyval" where
  "retag_service lower p t = (\<lambda>(n, c). (n, if matches lower p c then set_tag t c else c))"

text \<open>Running the rewriter on its own output.\<close>

definition rewrite_twice ::
  "(string \<Rightarrow> string) \<Rightarrow> pyval \<Rightarrow> string option \<Rightarrow> string option \<Rightarrow> string option
     \<Rightarrow> event list \<times> (exn + pyval)" where
  "rewrite_twice lower compose_data registry_url project_path image_tag =
     (case update_image_tags lower compose_data registry_url project_path image_tag of
        (out, Inl e) \<Rightarrow> (out, Inl e)
      | (out, Inr compose_data') \<Rightarrow>
          (case update_image_tags lower compose_data' registry_url project_path image_tag of
             (out', r) \<Rightarrow> (out @ out', r)))"

text \<open>A composition document of the expected shape: a mapping whose \<open>services\<close>, when
  present, map each name to a mapping whose \<open>image\<close>, when present, is a string.\<close>

definition wf_service :: "pyval \<Rightarrow> bool" where
  "wf_service service_config =
     (case service_config of
        PDict cfg \<Rightarrow>
          (case map_of cfg ''image'' of None \<Rightarrow> True | Some (PStr _) \<Rightarrow> True | Some _ \<Rightarrow> False)
      | _ \<Rightarrow> False)"

definition wf_compose :: "pyval \<Rightarrow> bool" where
  "wf_compose compose_data =
     (case compose_data of
        PDict doc \<Rightarrow>
          (case map_of doc ''services'' of
             None \<Rightarrow> True
           | Some (PDict services) \<Rightarrow> list_all (\<lambda>(n, c). wf_service c) services
           | Some _ \<Rightarrow> False)
      | _ \<Rightarrow> False)"

definition example_compose :: pyval where
  "example_compose =
     PDict [(''version'', PStr ''3''),
            (''services'', PDict
               [(''web'', PDict [(''image'', PStr ''registry.example.com/myorg/app:old''),
                                 (''ports'', PList [PStr ''80:80''])]),
                (''db'', PDict [(''image'', PStr ''postgres:13'')])])]"

definition example_untagged :: pyval where
  "example_untagged =
     PDict [(''services'', PDict
               [(''web'', PDict [(''image'', PStr ''registry.example.com/myorg/app'')])])]"

subsection \<open>Documents with shared mappings\<close>

text \<open>
  The loop assigns \<^verbatim>\<open>service_config['image']\<close> in place, on the objects
  \<^verbatim>\<open>yaml.safe_load\<close> returned, and a YAML anchor and its aliases are loaded as one
  dict. In a \<open>pyval\<close> every mapping occurs in one place only, so \<open>update_image_tags\<close>
  above is the rewriter on the documents without such sharing, where assigning in place
  and updating the value are the same thing. For the other documents a mapping that
  may occur in several places is kept apart, under an address: \<open>Alias a\<close> is the
  mapping \<open>h a\<close> of the store \<open>h\<close>, an assignment to it changes the store, and is seen
  at every place where \<open>Alias a\<close> occurs. \<open>NDict\<close> is a mapping that occurs where it
  is written and nowhere else.
\<close>

datatype node =
    NNone
  | NBool bool
  | NInt int
  | NStr string
  | NList "node list"
  | NDict "(string \<times> node) list"
  | Alias nat

type_synonym store = "nat \<Rightarrow> (string \<times> node) list"

text \<open>The entries of a node that is a mapping.\<close>

definition entries :: "store \<Rightarrow> node \<Rightarrow> (string \<times> node) list option" where
  "entries h v = (case v of NDict d \<Rightarrow> Some d | Alias a \<Rightarrow> Some (h a) | _ \<Rightarrow> None)"

fun has_image_in :: "store \<Rightarrow> node \<Rightarrow> exn + bool" where
  "has_image_in h (NDict d) = Inr (''image'' \<in> set (map fst d))"
| "has_image_in h (Alias a) = Inr (''image'' \<in> set (map fst (h a)))"
| "has_image_in h (NStr s) = Inr (py_in ''image'' s)"
| "has_image_in h (NList xs) = Inr (NStr ''image'' \<in> set xs)"
| "has_image_in h _ = Inl TypeError"

text \<open>One turn of the loop. The assignment changes the store when the service's
  mapping is shared, and the mapping where it stands otherwise.\<close>

definition update_service_in_place ::
  "(string \<Rightarrow> string) \<Rightarrow> string \<Rightarrow> string \<Rightarrow> store \<Rightarrow> string \<Rightarrow> node
     \<Rightarrow> event list \<times> (exn + store \<times> node)" where
  "update_service_in_place lower project_path image_tag h service_name service_config =
     (case has_image_in h service_config of
        Inl e \<Rightarrow> ([], Inl e)
      | Inr False \<Rightarrow> ([], Inr (h, service_config))
      | Inr True \<Rightarrow>
          (case entries h service_config of
             None \<Rightarrow> ([], Inl TypeError)
           | Some cfg \<Rightarrow>
               (case map_of cfg ''image'' of
                  None \<Rightarrow> ([], Inl KeyError)
                | Some (NStr img) \<Rightarrow>
                    if py_in (lower project_path) (lower img) then
                      (case split_on CHR '':'' img of
                         [] \<Rightarrow> ([], Inl IndexError)
                       | base_image # _ \<Rightarrow>
                           ([Print (ImageUpdated service_name (base_image @ '':'' @ image_tag))],
                            Inr (case service_config of
                                   Alias a \<Rightarrow>
                                     (h(a := AList.update ''image''
                                               (NStr (base_image @ '':'' @ image_tag)) cfg),
                                      service_config)
                                 | _ \<Rightarrow>
                                     (h, NDict (AList.update ''image''
                                                  (NStr (base_image @ '':'' @ image_tag)) cfg)))))
                    else ([], Inr (h, service_config))
                | Some _ \<Rightarrow> ([], Inl AttributeError))))"

text \<open>The loop over the items of a \<open>services\<close> mapping that occurs in one place
  only: the store is handed from one turn to the next.\<close>

fun update_services_in_place ::
  "(string \<Rightarrow> string) \<Rightarrow> string \<Rightarrow> string \<Rightarrow> store \<Rightarrow> (string \<times> node) list
     \<Rightarrow> event list \<times> (exn + store \<times> (string \<times> node) list)" where
  "update_services_in_place lower project_path image_tag h [] = ([], Inr (h, []))"
| "update_services_in_place lower project_path image_tag h ((service_name, service_config) # rest) =
     (case update_service_in_place lower project_path image_tag h service_name service_config of
        (out, Inl e) \<Rightarrow> (out, Inl e)
      | (out, Inr (h', service_config')) \<Rightarrow>
          (case update_services_in_place lower project_path image_tag h' rest of
             (out', Inl e) \<Rightarrow> (out @ out', Inl e)
           | (out', Inr (h'', rest')) \<Rightarrow>
               (out @ out', Inr (h'', (service_name, service_config') # rest'))))"

text \<open>The loop when the \<open>services\<close> mapping is itself shared, at address \<open>b\<close>: the
  items are read from the store as the loop reaches them, \<open>i\<close> being the position of
  the next one and \<open>k\<close> the number of items left. An assignment replaces the value of
  a key that is there, so the mapping keeps its length and the order of its keys.\<close>

fun update_services_at ::
  "(string \<Rightarrow> string) \<Rightarrow> string \<Rightarrow> string \<Rightarrow> store \<Rightarrow> nat \<Rightarrow> nat \<Rightarrow> nat
     \<Rightarrow> event list \<times> (exn + store)" where
  "update_services_at lower project_path image_tag h b i 0 = ([], Inr h)"
| "update_services_at lower project_path image_tag h b i (Suc k) =
     (case h b ! i of
        (service_name, service_config) \<Rightarrow>
          (case update_service_in_place lower project_path image_tag h service_name service_config of
             (out, Inl e) \<Rightarrow> (out, Inl e)
           | (out, Inr (h', service_config')) \<Rightarrow>
               (case update_services_at lower project_path image_tag
                       (case service_config of
                          Alias a \<Rightarrow> h'
                        | _ \<Rightarrow> h'(b := (h' b)[i := (service_name, service_config')]))
                       b (Suc i) k of
                  (out', res) \<Rightarrow> (out @ out', res))))"

definition update_image_tags_in_place ::
  "(string \<Rightarrow> string) \<Rightarrow> store \<times> node \<Rightarrow> string option \<Rightarrow> string option \<Rightarrow> string option
     \<Rightarrow> event list \<times> (exn + store \<times> node)" where
  "update_image_tags_in_place lower compose_data registry_url project_path image_tag =
     (if \<not> str_truthy registry_url \<or> \<not> str_truthy project_path \<or> \<not> str_truthy image_tag
      then ([Print TagUpdateSkipped], Inr compose_data)
      else
        (case (project_path, image_tag, compose_data) of
           (Some p, Some t, h, root) \<Rightarrow>
             (case entries h root of
                None \<Rightarrow> ([], Inl AttributeError)
              | Some doc \<Rightarrow>
                  (case map_of doc ''services'' of
                     None \<Rightarrow> ([], Inr compose_data)
                   | Some (NDict services) \<Rightarrow>
                       (case update_services_in_place lower p t h services of
                          (out, Inl e) \<Rightarrow> (out, Inl e)
                        | (out, Inr (h', services')) \<Rightarrow>
                            (out, Inr (case root of
                                         Alias a \<Rightarrow>
                                           (h'(a := AList.update ''services''
                                                      (NDict services') (h' a)), root)
                                       | _ \<Rightarrow>
                                           (h', NDict (AList.update ''services''
                                                         (NDict services') doc)))))
                   | Some (Alias b) \<Rightarrow>
                       (case update_services_at lower p t h b 0 (length (h b)) of
                          (out, Inl e) \<Rightarrow> (out, Inl e)
                        | (out, Inr h') \<Rightarrow> (out, Inr (h', root)))
                   | Some _ \<Rightarrow> ([], Inl AttributeError)))
         | _ \<Rightarrow> ([Print TagUpdateSkipped], Inr compose_data)))"

text \<open>A document without sharing, as a node; and the mapping found under a
  top-level key of a document.\<close>

primrec unshared :: "pyval \<Rightarrow> node" where
  "unshared PNone = NNone"
| "unshared (PBool b) = NBool b"
| "unshared (PInt i) = NInt i"
| "unshared (PStr s) = NStr s"
| "unshared (PList xs) = NList (map unshared xs)"
| "unshared (PDict d) = NDict (map (map_prod id unshared) d)"

definition entry :: "store \<times> node \<Rightarrow> string \<Rightarrow> (string \<times> node) list option" where
  "entry compose_data k =
     (case compose_data of
        (h, root) \<Rightarrow>
          (case entries h root of
             None \<Rightarrow> None
           | Some doc \<Rightarrow> (case map_of doc k of None \<Rightarrow> None | Some v \<Rightarrow> entries h v)))"

text \<open>The image entry of a service, read through the store.\<close>

definition image_at :: "store \<Rightarrow> node \<Rightarrow> node option" where
  "image_at h service_config =
     (case entries h service_config of Some cfg \<Rightarrow> map_of cfg ''image'' | None \<Rightarrow> None)"

text \<open>An example: the mapping anchored at \<open>x-app\<close> is the configuration of the
  service \<open>web\<close>.

  \<^verbatim>\<open>x-app: &app {image: "registry.example.com/myorg/app:old"}\<close>

  \<^verbatim>\<open>services: {web: *app, db: {image: "postgres:13"}}\<close>\<close>

definition example_store :: store where
  "example_store =
     (\<lambda>a. if a = 0 then [(''image'', NStr ''registry.example.com/myorg/app:old'')] else [])"

definition example_shared :: node where
  "example_shared =
     NDict [(''x-app'', Alias 0),
            (''services'', NDict [(''web'', Alias 0),
                                  (''db'', NDict [(''image'', NStr ''postgres:13'')])])]"

section \<open>The stack API\<close>

text \<open>
  The Portainer API is the environment of a run: what happens to each request. A write
  request returns a response or raises, and the exception may carry a response, which
  \<^verbatim>\<open>create_stack\<close> and \<^verbatim>\<open>update_stack\<close> look at. For the listing \<open>None\<close> stands
  for a request that raises: \<^verbatim>\<open>get_stack_id\<close> prints the exception and looks no
  further.
\<close>

datatype outcome = Raises "response option" | Responds response

record api =
  get_stacks :: "response option"
  post_stack :: "pyval \<Rightarrow> outcome"
  put_stack :: "pyval \<Rightarrow> pyval \<Rightarrow> outcome"

text \<open>\<^verbatim>\<open>Response.raise_for_status()\<close> raises \<^verbatim>\<open>HTTPError\<close> for the client and server
  error codes 400..599 and for nothing else; \<^verbatim>\<open>Response.ok\<close>, which is also the truth
  value of a response object, says whether it would raise; \<^verbatim>\<open>Response.json()\<close> raises
  when the body is not JSON.\<close>

definition raise_for_status :: "response \<Rightarrow> exn + unit" where
  "raise_for_status r =
     (if 400 \<le> status_code r \<and> status_code r < 600 then Inl (HTTPError r) else Inr ())"

definition response_ok :: "response \<Rightarrow> bool" where
  "response_ok r = (case raise_for_status r of Inl _ \<Rightarrow> False | Inr _ \<Rightarrow> True)"

definition response_json :: "response \<Rightarrow> exn + pyval" where
  "response_json r = (case body_json r of None \<Rightarrow> Inl JSONDecodeError | Some v \<Rightarrow> Inr v)"

text \<open>\<^verbatim>\<open>x.get(k)\<close>, iteration \<^verbatim>\<open>for y in x\<close>, and the comparisons \<^verbatim>\<open>x == n\<close> with an
  \<^verbatim>\<open>int\<close> (which \<^verbatim>\<open>True\<close> and \<^verbatim>\<open>False\<close> equal as 1 and 0) and \<^verbatim>\<open>x == s\<close> with a
  command-line value.\<close>

fun py_get :: "pyval \<Rightarrow> string \<Rightarrow> exn + pyval" where
  "py_get (PDict d) k = Inr (case map_of d k of None \<Rightarrow> PNone | Some v \<Rightarrow> v)"
| "py_get _ k = Inl AttributeError"

fun py_iter :: "pyval \<Rightarrow> exn + pyval list" where
  "py_iter (PList xs) = Inr xs"
| "py_iter (PDict d) = Inr (map (\<lambda>(k, v). PStr k) d)"
| "py_iter (PStr s) = Inr (map (\<lambda>c. PStr [c]) s)"
| "py_iter _ = Inl TypeError"

fun eq_int :: "pyval \<Rightarrow> int \<Rightarrow> bool" where
  "eq_int (PInt i) n = (i = n)"
| "eq_int (PBool b) n = ((if b then 1 else 0) = n)"
| "eq_int _ n = False"

fun opt_str :: "string option \<Rightarrow> pyval" where
  "opt_str None = PNone"
| "opt_str (Some s) = PStr s"

text \<open>The loop of \<^verbatim>\<open>get_stack_id\<close> over the listed stacks.\<close>

fun find_stack :: "int \<Rightarrow> string option \<Rightarrow> pyval list \<Rightarrow> exn + pyval" where
  "find_stack env_id stack_name [] = Inr PNone"
| "find_stack env_id stack_name (stack # rest) =
     (case py_get stack ''Name'' of
        Inl e \<Rightarrow> Inl e
      | Inr nm \<Rightarrow>
          if nm = opt_str stack_name then
            (case py_get stack ''EndpointId'' of
               Inl e \<Rightarrow> Inl e
             | Inr ep \<Rightarrow>
                 if eq_int ep env_id then py_get stack ''Id''
                 else find_stack env_id stack_name rest)
          else find_stack env_id stack_name rest)"

text \<open>The \<^verbatim>\<open>try\<close> block of \<^verbatim>\<open>get_stack_id\<close>, then the function with its
  \<^verbatim>\<open>except Exception\<close>, which prints and returns \<^verbatim>\<open>None\<close>.\<close>

definition get_stack_id_try :: "api \<Rightarrow> int \<Rightarrow> string option \<Rightarrow> exn + pyval" where
  "get_stack_id_try portainer env_id stack_name =
     (case get_stacks portainer of
        None \<Rightarrow> Inl (RequestException None)
      | Some r \<Rightarrow>
          (case raise_for_status r of
             Inl e \<Rightarrow> Inl e
           | Inr _ \<Rightarrow>
               (case response_json r of
                  Inl e \<Rightarrow> Inl e
                | Inr stacks \<Rightarrow>
                    (case py_iter stacks of
                       Inl e \<Rightarrow> Inl e
                     | Inr xs \<Rightarrow> find_stack env_id stack_name xs))))"

definition get_stack_id :: "api \<Rightarrow> int \<Rightarrow> string option \<Rightarrow> event list \<times> pyval" where
  "get_stack_id portainer env_id stack_name =
     (case get_stack_id_try portainer env_id stack_name of
        Inl e \<Rightarrow> ([Request GetStacks, Print (StackIdError e)], PNone)
      | Inr stack_id \<Rightarrow> ([Request GetStacks], stack_id))"

text \<open>\<^verbatim>\<open>if hasattr(e, 'response') and e.response: print(...)\<close>. Of the exceptions raised
  here those of \<^verbatim>\<open>requests\<close> have the attribute; it is \<^verbatim>\<open>None\<close> or a response
  object, and the test is then the truth value of that object.\<close>

definition print_response :: "exn \<Rightarrow> event list" where
  "print_response e =
     (case e of
        HTTPError r \<Rightarrow> if response_ok r then [Print (ResponseBody (body_text r))] else []
      | RequestException (Some r) \<Rightarrow>
          if response_ok r then [Print (ResponseBody (body_text r))] else []
      | _ \<Rightarrow> [])"

definition create_payload :: "string option \<Rightarrow> pyval \<Rightarrow> int \<Rightarrow> bool \<Rightarrow> bool \<Rightarrow> pyval" where
  "create_payload stack_name compose_content env_id prune pull =
     PDict [(''name'', opt_str stack_name),
            (''stackFileContent'', compose_content),
            (''endpointId'', PInt env_id),
            (''swarmId'', PStr []),
            (''env'', PList []),
            (''prune'', PBool prune),
            (''pullImage'', PBool pull)]"

definition create_stack ::
  "api \<Rightarrow> int \<Rightarrow> string option \<Rightarrow> pyval \<Rightarrow> bool \<Rightarrow> bool \<Rightarrow> event list \<times> (stop + pyval)" where
  "create_stack portainer env_id stack_name compose_content prune pull =
     (let payload = create_payload stack_name compose_content env_id prune pull
      in case (case post_stack portainer payload of
                 Raises carried \<Rightarrow> Inl (RequestException carried)
               | Responds r \<Rightarrow> (case raise_for_status r of Inl e \<Rightarrow> Inl e | Inr _ \<Rightarrow> Inr r)) of
           Inl e \<Rightarrow>
             ([Request (PostStack payload), Print (CreateError e)] @ print_response e,
              Inl (SysExit 1))
         | Inr r \<Rightarrow>
             (case (case response_json r of Inl e \<Rightarrow> Inl e | Inr v \<Rightarrow> py_get v ''Id'') of
                Inl e \<Rightarrow>
                  ([Request (PostStack payload), Print (StackCreated stack_name),
                    Print (CreateError e)] @ print_response e, Inl (SysExit 1))
              | Inr new_id \<Rightarrow>
                  ([Request (PostStack payload), Print (StackCreated stack_name)],
                   Inr new_id)))"

text \<open>\<^verbatim>\<open>update_stack\<close>. The two scripts have the same body; the rollback script's
  signature gives the defaults \<^verbatim>\<open>prune=False, pull=True\<close>, so there an argument that is
  not passed is \<open>None\<close>.\<close>

definition update_payload :: "pyval \<Rightarrow> bool \<Rightarrow> bool \<Rightarrow> pyval" where
  "update_payload compose_content prune pull =
     PDict [(''stackFileContent'', compose_content),
            (''env'', PList []),
            (''prune'', PBool prune),
            (''pullImage'', PBool pull)]"

definition update_stack ::
  "api \<Rightarrow> pyval \<Rightarrow> int \<Rightarrow> pyval \<Rightarrow> bool \<Rightarrow> bool \<Rightarrow> event list \<times> (stop + bool)" where
  "update_stack portainer stack_id env_id compose_content prune pull =
     (let payload = update_payload compose_content prune pull
      in case (case put_stack portainer stack_id payload of
                 Raises carried \<Rightarrow> Inl (RequestException carried)
               | Responds r \<Rightarrow> raise_for_status r) of
           Inl e \<Rightarrow>
             ([Request (PutStack stack_id payload), Print (UpdateError e)] @ print_response e,
              Inl (SysExit 1))
         | Inr _ \<Rightarrow> ([Request (PutStack stack_id payload), Print StackUpdated], Inr True))"

definition rollback_update_stack ::
  "api \<Rightarrow> pyval \<Rightarrow> int \<Rightarrow> pyval \<Rightarrow> bool option \<Rightarrow> bool option \<Rightarrow> event list \<times> (stop + bool)" where
  "rollback_update_stack portainer stack_id env_id compose_content prune pull =
     update_stack portainer stack_id env_id compose_content
       (case prune of None \<Rightarrow> False | Some b \<Rightarrow> b)
       (case pull of None \<Rightarrow> True | Some b \<Rightarrow> b)"

section \<open>Arguments, files and the environment of a run\<close>

text \<open>The namespace returned by \<^verbatim>\<open>parse_arguments\<close>: the options the two scripts
  share, then those of each script.\<close>

record args =
  portainer_url :: "string option"
  api_key :: "string option"
  env_id :: int
  stack_name :: "string option"
  compose_file :: "string option"
  registry_url :: "string option"
  project_path :: "string option"

record deploy_args = args +
  image_tag :: "string option"
  prune :: bool
  pull :: bool

record rollback_args = args +
  previous_tag :: "string option"
  artifact_path :: string

text \<open>A path that exists holds a file that either cannot be opened or parsed (with the
  exception that raises) or parses to a value; a path that does not exist is \<open>None\<close>.\<close>

datatype 'a on_disk = Unreadable exn | Content 'a

text \<open>The artifact file, once parsed, is a JSON object with string values (the
  \<open>last_successful_tag\<close> record) or some other JSON value, which has no \<^verbatim>\<open>get\<close>.\<close>

datatype artifact_json = JsonObject "(string \<times> string) list" | JsonOther

text \<open>Everything a run reads from outside: the file at \<^verbatim>\<open>args.compose_file\<close>, the file
  at \<^verbatim>\<open>args.artifact_path\<close>, the variable \<^verbatim>\<open>CI_COMMIT_REF_NAME\<close>, the current time as
  \<^verbatim>\<open>time.strftime\<close> formats it, the stack API, whether the operating system lets
  the history file be written, and the runtime's \<^verbatim>\<open>str.lower\<close>. The history file
  itself is passed and returned.\<close>

record world =
  compose_at :: "pyval on_disk option"
  artifact_at :: "artifact_json on_disk option"
  ci_commit_ref_name :: "string option"
  strftime :: string
  portainer :: api
  log_writable :: bool
  str_lower :: "string \<Rightarrow> string"

subsection \<open>Sequencing\<close>

text \<open>A step prints and sends requests, then yields a value or stops the script.\<close>

definition and_then ::
  "event list \<times> (stop + 'a) \<Rightarrow> ('a \<Rightarrow> event list \<times> (stop + 'b)) \<Rightarrow> event list \<times> (stop + 'b)" where
  "and_then m f =
     (case m of
        (out, Inl s) \<Rightarrow> (out, Inl s)
      | (out, Inr x) \<Rightarrow> (case f x of (out', r) \<Rightarrow> (out @ out', r)))"

definition say :: "msg \<Rightarrow> event list \<times> (stop + unit)" where
  "say m = ([Print m], Inr ())"

definition uncaught :: "event list \<times> (exn + 'a) \<Rightarrow> event list \<times> (stop + 'a)" where
  "uncaught m = (case m of (out, Inl e) \<Rightarrow> (out, Inl (Uncaught e)) | (out, Inr x) \<Rightarrow> (out, Inr x))"

fun requests_of :: "event list \<Rightarrow> call list" where
  "requests_of [] = []"
| "requests_of (Print m # es) = requests_of es"
| "requests_of (Request c # es) = c # requests_of es"


subsection \<open>Steps shared by the two scripts\<close>

definition validate_args :: "'a args_scheme \<Rightarrow> world \<Rightarrow> event list \<times> (stop + unit)" where
  "validate_args args w =
     (let missing =
            (if \<not> str_truthy (portainer_url args) then [''--portainer-url or PORTAINER_URL''] else [])
          @ (if \<not> str_truthy (api_key args) then [''--api-key or PORTAINER_API_KEY''] else [])
          @ (if \<not> str_truthy (stack_name args) then [''--stack-name or STACK_NAME''] else [])
          @ (if \<not> str_truthy (compose_file args) then [''--compose-file or COMPOSE_FILE''] else [])
      in if missing \<noteq> [] then ([Print (MissingArguments missing)], Inl (SysExit 1))
         else if compose_at w = None then ([Print ComposeFileNotFound], Inl (SysExit 1))
         else ([], Inr ()))"

definition read_compose_file :: "pyval on_disk option \<Rightarrow> event list \<times> (stop + pyval)" where
  "read_compose_file f =
     (case f of
        Some (Content v) \<Rightarrow> ([], Inr v)
      | _ \<Rightarrow> ([Print ComposeReadError], Inl (SysExit 1)))"

section \<open>The deploy script\<close>

text \<open>\<^verbatim>\<open>main\<close> in two parts: the document to deploy (arguments, compose file, image
  tags, \<^verbatim>\<open>yaml.dump\<close>), then the reconciliation against the stack API.\<close>

definition deploy_compose :: "deploy_args \<Rightarrow> world \<Rightarrow> event list \<times> (stop + pyval)" where
  "deploy_compose args w =
     and_then (validate_args args w) (\<lambda>_.
     and_then (read_compose_file (compose_at w)) (\<lambda>compose_data.
       if str_truthy (image_tag args) \<and> str_truthy (registry_url args)
            \<and> str_truthy (project_path args)
       then uncaught (update_image_tags (str_lower w) compose_data
                        (registry_url args) (project_path args) (image_tag args))
       else ([], Inr compose_data)))"

definition deploy_reconcile :: "deploy_args \<Rightarrow> world \<Rightarrow> pyval \<Rightarrow> event list \<times> (stop + unit)" where
  "deploy_reconcile args w compose_content =
     and_then
       (case get_stack_id (portainer w) (env_id args) (stack_name args) of
          (out, stack_id) \<Rightarrow> (out, Inr stack_id)) (\<lambda>stack_id.
     and_then
       (if py_truthy stack_id then
          and_then (say (UpdatingExisting (stack_name args) stack_id)) (\<lambda>_.
          and_then (update_stack (portainer w) stack_id (env_id args)
                      compose_content (prune args) (pull args)) (\<lambda>_. ([], Inr ())))
        else
          and_then (say (CreatingNew (stack_name args))) (\<lambda>_.
          and_then (create_stack (portainer w) (env_id args) (stack_name args)
                      compose_content (prune args) (pull args)) (\<lambda>_. ([], Inr ())))) (\<lambda>_.
     say DeploymentCompleted))"

definition deploy_main :: "deploy_args \<Rightarrow> world \<Rightarrow> event list \<times> (stop + unit)" where
  "deploy_main args w = and_then (deploy_compose args w) (deploy_reconcile args w)"

section \<open>The rollback script\<close>

definition query_previous_tag_from_registry ::
  "rollback_args \<Rightarrow> world \<Rightarrow> event list \<times> string" where
  "query_previous_tag_from_registry args w =
     (let branch = (case ci_commit_ref_name w of None \<Rightarrow> ''main'' | Some b \<Rightarrow> b);
          fallback_tag = branch @ ''-latest''
      in ([Print QueryingRegistry, Print (UsingFallbackTag fallback_tag)], fallback_tag))"

text \<open>The \<^verbatim>\<open>try\<close> block of \<^verbatim>\<open>get_previous_tag\<close>: \<open>Some tag\<close> when it returns a tag,
  \<open>None\<close> when control falls out of it, after the warning if something was raised.\<close>

definition read_artifact_tag :: "artifact_json on_disk option \<Rightarrow> event list \<times> string option" where
  "read_artifact_tag f =
     (case f of
        None \<Rightarrow> ([], None)
      | Some (Unreadable e) \<Rightarrow> ([Print (ArtifactWarning e)], None)
      | Some (Content JsonOther) \<Rightarrow> ([Print (ArtifactWarning AttributeError)], None)
      | Some (Content (JsonObject data)) \<Rightarrow>
          (case map_of data ''last_successful_tag'' of
             None \<Rightarrow> ([], None)
           | Some tag \<Rightarrow>
               if tag \<noteq> [] then ([Print (UsingArtifactTag tag)], Some tag) else ([], None)))"

definition get_previous_tag :: "rollback_args \<Rightarrow> world \<Rightarrow> event list \<times> (stop + string)" where
  "get_previous_tag args w =
     (case (case previous_tag args of None \<Rightarrow> None
            | Some t \<Rightarrow> if t \<noteq> [] then Some t else None) of
        Some t \<Rightarrow> ([Print (UsingProvidedTag t)], Inr t)
      | None \<Rightarrow>
          (case read_artifact_tag (artifact_at w) of
             (out, Some tag) \<Rightarrow> (out, Inr tag)
           | (out, None) \<Rightarrow>
               (case query_previous_tag_from_registry args w of
                  (out', tag) \<Rightarrow>
                    if tag \<noteq> [] then (out @ out', Inr tag)
                    else (out @ out' @ [Print NoPreviousTag], Inl (SysExit 1)))))"

text \<open>\<^verbatim>\<open>main\<close> up to and including \<^verbatim>\<open>"Rollback completed successfully!"\<close>, in two
  parts as for the deploy script; it yields the tag rolled back to.\<close>

definition rollback_compose ::
  "rollback_args \<Rightarrow> world \<Rightarrow> event list \<times> (stop + string \<times> pyval)" where
  "rollback_compose args w =
     and_then (validate_args args w) (\<lambda>_.
     and_then (get_previous_tag args w) (\<lambda>tag.
     and_then (read_compose_file (compose_at w)) (\<lambda>compose_data.
     and_then
       (uncaught (update_image_tags (str_lower w) compose_data
                    (registry_url args) (project_path args) (Some tag))) (\<lambda>compose_content.
       ([], Inr (tag, compose_content))))))"

definition rollback_reconcile ::
  "rollback_args \<Rightarrow> world \<Rightarrow> string \<Rightarrow> pyval \<Rightarrow> event list \<times> (stop + string)" where
  "rollback_reconcile args w tag compose_content =
     and_then
       (case get_stack_id (portainer w) (env_id args) (stack_name args) of
          (out, stack_id) \<Rightarrow> (out, Inr stack_id)) (\<lambda>stack_id.
     and_then
       (if \<not> py_truthy stack_id
        then ([Print (StackNotFound (stack_name args))], Inl (SysExit 1))
        else ([], Inr ())) (\<lambda>_.
     and_then (say (RollingBack (stack_name args) tag)) (\<lambda>_.
     and_then (rollback_update_stack (portainer w) stack_id (env_id args)
                 compose_content None (Some True)) (\<lambda>_.
     and_then (say RollbackCompleted) (\<lambda>_. ([], Inr tag))))))"

definition rollback_main_update :: "rollback_args \<Rightarrow> world \<Rightarrow> event list \<times> (stop + string)" where
  "rollback_main_update args w =
     and_then (rollback_compose args w) (\<lambda>(tag, compose_content).
       rollback_reconcile args w tag compose_content)"

subsection \<open>The rollback history\<close>

text \<open>\<^verbatim>\<open>os.path.dirname\<close> and \<^verbatim>\<open>os.path.join\<close> with two arguments, on POSIX paths.\<close>

definition dirname :: "string \<Rightarrow> string" where
  "dirname p =
     (let head = rev (dropWhile (\<lambda>c. c \<noteq> CHR ''/'') (rev p))
      in if head \<noteq> [] \<and> \<not> list_all (\<lambda>c. c = CHR ''/'') head
         then rev (dropWhile (\<lambda>c. c = CHR ''/'') (rev head))
         else head)"

definition path_join :: "string \<Rightarrow> string \<Rightarrow> string" where
  "path_join a b =
     (if startswith b ''/'' then b
      else if a = [] \<or> last a = CHR ''/'' then a @ b
      else a @ ''/'' @ b)"

text \<open>\<^verbatim>\<open>history.append(x)\<close>: only a list has \<^verbatim>\<open>append\<close>.\<close>

fun py_append :: "pyval \<Rightarrow> pyval \<Rightarrow> exn + pyval" where
  "py_append (PList xs) x = Inr (PList (xs @ [x]))"
| "py_append _ x = Inl AttributeError"

definition rollback_record :: "rollback_args \<Rightarrow> world \<Rightarrow> string \<Rightarrow> pyval" where
  "rollback_record args w tag =
     PDict [(''timestamp'', PStr (strftime w)),
            (''stack'', opt_str (stack_name args)),
            (''environment'',
               PStr (case ci_commit_ref_name w of None \<Rightarrow> ''unknown'' | Some b \<Rightarrow> b)),
            (''rolled_back_to'', PStr tag)]"

text \<open>The last block of \<^verbatim>\<open>main\<close>, under its \<^verbatim>\<open>try\<close>: read the history, append, create
  the directory (\<^verbatim>\<open>os.makedirs('')\<close> raises), write. Any exception leaves the file as
  it was and prints the warning.\<close>

definition record_rollback ::
  "rollback_args \<Rightarrow> world \<Rightarrow> string \<Rightarrow> pyval on_disk option \<Rightarrow> event list \<times> pyval on_disk option" where
  "record_rollback args w tag history_file =
     (let rollback_log = path_join (dirname (artifact_path args)) ''rollback_history.json''
      in case (case history_file of
                 None \<Rightarrow> Inr (PList [])
               | Some (Unreadable e) \<Rightarrow> Inl e
               | Some (Content v) \<Rightarrow> Inr v) of
           Inl e \<Rightarrow> ([Print (HistoryWarning e)], history_file)
         | Inr history \<Rightarrow>
             (case py_append history (rollback_record args w tag) of
                Inl e \<Rightarrow> ([Print (HistoryWarning e)], history_file)
              | Inr history' \<Rightarrow>
                  if dirname rollback_log = [] \<or> \<not> log_writable w
                  then ([Print (HistoryWarning OSError)], history_file)
                  else ([], Some (Content history'))))"

definition rollback_main ::
  "rollback_args \<Rightarrow> world \<Rightarrow> pyval on_disk option
     \<Rightarrow> event list \<times> (stop + unit) \<times> pyval on_disk option" where
  "rollback_main args w history_file =
     (case rollback_main_update args w of
        (out, Inl s) \<Rightarrow> (out, Inl s, history_file)
      | (out, Inr tag) \<Rightarrow>
          (case record_rollback args w tag history_file of
             (out', history_file') \<Rightarrow> (out @ out', Inr (), history_file')))"

text \<open>Invocations one after the other on the same history file.\<close>

fun rollback_runs ::
  "(rollback_args \<times> world) list \<Rightarrow> pyval on_disk option \<Rightarrow> pyval on_disk option" where
  "rollback_runs [] history_file = history_file"
| "rollback_runs ((args, w) # rest) history_file =
     rollback_runs rest (snd (snd (rollback_main args w history_file)))"

section \<open>Vocabulary for the claims about the two scripts\<close>

text \<open>A listed stack is a JSON object; it matches when its \<open>Name\<close> equals the stack name
  and its \<open>EndpointId\<close> equals the environment id, by the comparisons of \<^verbatim>\<open>get_stack_id\<close>.\<close>

definition is_object :: "pyval \<Rightarrow> bool" where
  "is_object v = (case v of PDict _ \<Rightarrow> True | _ \<Rightarrow> False)"

definition stack_matches :: "int \<Rightarrow> string option \<Rightarrow> pyval \<Rightarrow> bool" where
  "stack_matches e n stack =
     (py_get stack ''Name'' = Inr (opt_str n) \<and>
      (case py_get stack ''EndpointId'' of Inl _ \<Rightarrow> False | Inr ep \<Rightarrow> eq_int ep e))"


text \<open>The artifact file gives no tag: it is missing, unreadable, not an object, or its
  \<open>last_successful_tag\<close> is missing or empty.\<close>

definition no_artifact_tag :: "artifact_json on_disk option \<Rightarrow> bool" where
  "no_artifact_tag f =
     (case f of
        None \<Rightarrow> True
      | Some (Unreadable e) \<Rightarrow> True
      | Some (Content JsonOther) \<Rightarrow> True
      | Some (Content (JsonObject data)) \<Rightarrow>
          (case map_of data ''last_successful_tag'' of None \<Rightarrow> True | Some t \<Rightarrow> t = []))"

text \<open>An invocation of the rollback script, given by its arguments and environment:
  whether it reaches \<^verbatim>\<open>"Rollback completed successfully!"\<close>, the record it then has to
  append, whether the history file can be written (its directory has a name and the
  operating system allows the write), and the records a history file holds.\<close>

definition run_succeeds :: "rollback_args \<times> world \<Rightarrow> bool" where
  "run_succeeds = (\<lambda>(args, w).
     case snd (rollback_main_update args w) of Inl _ \<Rightarrow> False | Inr _ \<Rightarrow> True)"

definition run_record :: "rollback_args \<times> world \<Rightarrow> pyval" where
  "run_record = (\<lambda>(args, w).
     case snd (rollback_main_update args w) of
       Inl _ \<Rightarrow> PNone
     | Inr tag \<Rightarrow> rollback_record args w tag)"

definition can_record :: "rollback_args \<times> world \<Rightarrow> bool" where
  "can_record = (\<lambda>(args, w).
     dirname (path_join (dirname (artifact_path args)) ''rollback_history.json'') \<noteq> []
     \<and> log_writable w)"

definition prior_records :: "pyval on_disk option \<Rightarrow> pyval list option" where
  "prior_records history_file =
     (case history_file of
        None \<Rightarrow> Some []
      | Some (Content (PList xs)) \<Rightarrow> Some xs
      | _ \<Rightarrow> None)"

section \<open>Example runs\<close>

definition answer :: "nat \<Rightarrow> pyval option \<Rightarrow> response" where
  "answer code v = \<lparr>status_code = code, body_text = ''body'', body_json = v\<rparr>"

definition example_stack :: "int \<Rightarrow> pyval" where
  "example_stack i = PDict [(''Id'', PInt i), (''Name'', PStr ''qa-stack''), (''EndpointId'', PInt 1)]"

definition example_other :: pyval where
  "example_other = PDict [(''Id'', PInt 3), (''Name'', PStr ''other''), (''EndpointId'', PInt 1)]"

definition example_api :: "pyval list \<Rightarrow> nat \<Rightarrow> api" where
  "example_api stacks code =
     \<lparr>get_stacks = Some (answer 200 (Some (PList stacks))),
      post_stack = (\<lambda>payload. Responds (answer code (Some (PDict [(''Id'', PInt 7)])))),
      put_stack = (\<lambda>stack_id payload. Responds (answer code None))\<rparr>"

definition redirect_loop_api :: api where
  "redirect_loop_api =
     \<lparr>get_stacks = Some (answer 200 (Some (PList [example_stack 5]))),
      post_stack = (\<lambda>payload.
        Raises (Some \<lparr>status_code = 302, body_text = ''moved'', body_json = None\<rparr>)),
      put_stack = (\<lambda>stack_id payload.
        Raises (Some \<lparr>status_code = 302, body_text = ''moved'', body_json = None\<rparr>))\<rparr>"

definition example_deploy_args :: deploy_args where
  "example_deploy_args =
     \<lparr>portainer_url = Some ''https://portainer.example.com'', api_key = Some ''key'',
      env_id = 1, stack_name = Some ''qa-stack'', compose_file = Some ''docker-compose.yml'',
      registry_url = Some ''registry.example.com'', project_path = Some ''myorg/app'',
      image_tag = Some ''v2'', prune = False, pull = False\<rparr>"

definition example_rollback_args :: rollback_args where
  "example_rollback_args =
     \<lparr>portainer_url = Some ''https://portainer.example.com'', api_key = Some ''key'',
      env_id = 1, stack_name = Some ''qa-stack'', compose_file = Some ''docker-compose.yml'',
      registry_url = Some ''registry.example.com'', project_path = Some ''myorg/app'',
      previous_tag = None, artifact_path = ''artifacts/last_successful_tag.json''\<rparr>"

definition example_world :: "api \<Rightarrow> world" where
  "example_world a =
     \<lparr>compose_at = Some (Content example_compose),
      artifact_at = None,
      ci_commit_ref_name = Some ''release/2.0'',
      strftime = ''2024-01-01 00:00:00'',
      portainer = a,
      log_writable = True,
      str_lower = ascii_lower\<rparr>"

definition example_rewritten :: pyval where
  "example_rewritten =
     PDict [(''version'', PStr ''3''),
            (''services'', PDict
               [(''web'', PDict [(''image'', PStr ''registry.example.com/myorg/app:v2''),
                                 (''ports'', PList [PStr ''80:80''])]),
                (''db'', PDict [(''image'', PStr ''postgres:13'')])])]"

definition example_rolled_back :: pyval where
  "example_rolled_back =
     PDict [(''version'', PStr ''3''),
            (''services'', PDict
               [(''web'', PDict [(''image'', PStr ''registry.example.com/myorg/app:release/2.0-latest''),
                                 (''ports'', PList [PStr ''80:80''])]),
                (''db'', PDict [(''image'', PStr ''postgres:13'')])])]"

definition example_record :: pyval where
  "example_record =
     PDict [(''timestamp'', PStr ''2024-01-01 00:00:00''),
            (''stack'', PStr ''qa-stack''),
            (''environment'', PStr ''release/2.0''),
            (''rolled_back_to'', PStr ''release/2.0-latest'')]"

section \<open>Properties of the rewriter\<close>

subsection \<open>Strings and dicts\<close>

lemma split_on_hd: "\<exists>ws. split_on sep s = takeWhile (\<lambda>c. c \<noteq> sep) s # ws"
  by (induction s) (auto split: list.splits)

lemma repository_retag: "repository (repository img @ '':'' @ t) = repository img"
  unfolding repository_def
  by (induction img) auto

lemma split_on_nonempty: "split_on sep s \<noteq> []"
  using split_on_hd[of sep s] by auto

lemma repository_no_colon: "CHR '':'' \<notin> set img \<Longrightarrow> repository img = img"
  unfolding repository_def by (induction img) auto

lemma key_in_dict: "(k \<in> fst ` set d) = (map_of d k \<noteq> None)"
  by (simp add: map_of_eq_None_iff)

subsection \<open>One service, then the loop\<close>

lemma update_service_Inr:
  assumes "update_service lower p t n c = (out, Inr c')"
  shows "c' = (if matches lower p c then set_tag t c else c)"
    and "out = (if matches lower p c then [Print (ImageUpdated n (repository (the (image_of c)) @ '':'' @ t))] else [])"
proof -
  obtain ws where ws: "split_on CHR '':'' (the (image_of c)) = repository (the (image_of c)) # ws"
    using split_on_hd[of "CHR '':''" "the (image_of c)"] unfolding repository_def by blast
  show "c' = (if matches lower p c then set_tag t c else c)"
    using assms ws
    by (auto simp: update_service_def matches_def set_tag_def image_of_def key_in_dict
        split: sum.splits bool.splits pyval.splits option.splits if_splits list.splits)
  show "out = (if matches lower p c then [Print (ImageUpdated n (repository (the (image_of c)) @ '':'' @ t))] else [])"
    using assms ws
    by (auto simp: update_service_def matches_def set_tag_def image_of_def key_in_dict
        split: sum.splits bool.splits pyval.splits option.splits if_splits list.splits)
qed

lemma update_services_Inr:
  "update_services lower p t svs = (out, Inr svs') \<Longrightarrow>
     svs' = map (retag_service lower p t) svs \<and>
     length out = length (filter (\<lambda>(n, c). matches lower p c) svs)"
proof (induction svs arbitrary: out svs')
  case Nil
  then show ?case by simp
next
  case (Cons a svs)
  obtain n c where a: "a = (n, c)" by (cases a)
  from Cons.prems a obtain o1 c1 o2 r2 where
    s1: "update_service lower p t n c = (o1, Inr c1)" and
    s2: "update_services lower p t svs = (o2, Inr r2)" and
    res: "out = o1 @ o2" "svs' = (n, c1) # r2"
    by (auto split: prod.splits sum.splits)
  from Cons.IH[OF s2] update_service_Inr[OF s1] res a
  show ?case by (auto simp: retag_service_def)
qed

lemma update_services_unmatched:
  "\<forall>(n, c) \<in> set svs. \<not> matches lower p c \<Longrightarrow> map (retag_service lower p t) svs = svs"
  by (induction svs) (auto simp: retag_service_def)

lemma update_image_tags_Inr:
  assumes "str_truthy r" "p \<noteq> []" "t \<noteq> []"
    and "update_image_tags lower D r (Some p) (Some t) = (out, Inr D')"
  shows "\<exists>doc. D = PDict doc \<and>
           (case map_of doc ''services'' of
              None \<Rightarrow> D' = D \<and> out = []
            | Some v \<Rightarrow> v = PDict (services_of D) \<and>
                D' = PDict (AList.update ''services''
                        (PDict (map (retag_service lower p t) (services_of D))) doc) \<and>
                length out = length (filter (\<lambda>(n, c). matches lower p c) (services_of D)))"
  using assms
  by (auto simp: update_image_tags_def services_of_def
      split: pyval.splits option.splits prod.splits sum.splits dest!: update_services_Inr)

lemma set_tag_image:
  "image_of c = Some img \<Longrightarrow> image_of (set_tag t c) = Some (repository img @ '':'' @ t)"
  by (auto simp: image_of_def set_tag_def update_conv' split: pyval.splits option.splits)

lemma set_tag_other_fields:
  "image_of c = Some img \<Longrightarrow> f \<noteq> ''image'' \<Longrightarrow> field (set_tag t c) f = field c f"
  by (auto simp: image_of_def set_tag_def field_def update_conv' split: pyval.splits option.splits)

lemma set_tag_keys:
  "image_of c = Some img \<Longrightarrow> keys (set_tag t c) = keys c"
  by (auto simp: image_of_def set_tag_def keys_def update_keys key_in_dict
      split: pyval.splits option.splits)

lemma matches_image: "matches lower p c \<Longrightarrow> \<exists>img. image_of c = Some img"
  by (auto simp: matches_def split: option.splits)

lemma update_service_again:
  assumes "update_service lower p t n c = (out, Inr c')"
  shows "snd (update_service lower p t n c') = Inr c'"
proof (cases "matches lower p c")
  case False
  with update_service_Inr(1)[OF assms] have "c' = c" by simp
  with assms show ?thesis by simp
next
  case True
  then obtain img where img: "image_of c = Some img" using matches_image by blast
  then obtain cfg where c: "c = PDict cfg" and cfg: "map_of cfg ''image'' = Some (PStr img)"
    by (auto simp: image_of_def split: pyval.splits option.splits)
  let ?new = "repository img @ '':'' @ t"
  from update_service_Inr(1)[OF assms] True c cfg
  have c': "c' = PDict (AList.update ''image'' (PStr ?new) cfg)"
    by (simp add: set_tag_def)
  obtain ws where ws: "split_on CHR '':'' ?new = repository img # ws"
    using split_on_hd[of "CHR '':''" ?new] repository_retag[of img t]
    unfolding repository_def by auto
  show ?thesis
    unfolding c' update_service_def
    using ws by (simp add: update_conv' update_keys)
qed

lemma update_services_again:
  "update_services lower p t svs = (out, Inr svs') \<Longrightarrow> snd (update_services lower p t svs') = Inr svs'"
proof (induction svs arbitrary: out svs')
  case Nil
  then show ?case by simp
next
  case (Cons a svs)
  obtain n c where a: "a = (n, c)" by (cases a)
  from Cons.prems a obtain o1 c1 o2 r2 where
    s1: "update_service lower p t n c = (o1, Inr c1)" and
    s2: "update_services lower p t svs = (o2, Inr r2)" and
    res: "svs' = (n, c1) # r2"
    by (auto split: prod.splits sum.splits)
  from update_service_again[OF s1] Cons.IH[OF s2]
  show ?case unfolding res
    by (auto split: prod.splits sum.splits)
qed

lemma update_image_tags_again:
  assumes "update_image_tags lower D r p t = (out, Inr D')"
  shows "snd (update_image_tags lower D' r p t) = Inr D'"
proof (cases "str_truthy r \<and> str_truthy p \<and> str_truthy t")
  case False
  then show ?thesis using assms by (auto simp: update_image_tags_def)
next
  case True
  then obtain pp tt where pt: "p = Some pp" "t = Some tt"
    by (cases p; cases t) auto
  from assms True obtain doc where D: "D = PDict doc"
    unfolding pt update_image_tags_def by (auto split: pyval.splits)
  show ?thesis
  proof (cases "map_of doc ''services''")
    case None
    with assms True have "D' = D"
      unfolding pt D update_image_tags_def by simp
    with assms show ?thesis by simp
  next
    case (Some v)
    with assms True obtain svs svs' where v: "v = PDict svs"
      and loop: "update_services lower pp tt svs = (out, Inr svs')"
      and D': "D' = PDict (AList.update ''services'' (PDict svs') doc)"
      unfolding pt D update_image_tags_def
      by (auto split: pyval.splits prod.splits sum.splits)
    from update_services_again[OF loop]
    obtain out' where "update_services lower pp tt svs' = (out', Inr svs')"
      by (cases "update_services lower pp tt svs'") auto
    with True show ?thesis
      unfolding pt D' update_image_tags_def by (simp add: update_conv')
  qed
qed

lemma rewritten_services:
  assumes "str_truthy r" "p \<noteq> []" "t \<noteq> []"
    and "update_image_tags lower D r (Some p) (Some t) = (out, Inr D')"
  shows "services_of D' = map (retag_service lower p t) (services_of D)"
proof -
  from update_image_tags_Inr[OF assms] obtain doc where D: "D = PDict doc" and
    body: "case map_of doc ''services'' of
              None \<Rightarrow> D' = D \<and> out = []
            | Some v \<Rightarrow> v = PDict (services_of D) \<and>
                D' = PDict (AList.update ''services''
                        (PDict (map (retag_service lower p t) (services_of D))) doc) \<and>
                length out = length (filter (\<lambda>(n, c). matches lower p c) (services_of D))"
    by blast
  show ?thesis
  proof (cases "map_of doc ''services''")
    case None
    with body D show ?thesis by (simp add: services_of_def)
  next
    case (Some v)
    with body have "D' = PDict (AList.update ''services''
                        (PDict (map (retag_service lower p t) (services_of D))) doc)" by simp
    then show ?thesis by (simp add: services_of_def update_conv')
  qed
qed

lemma rewritten_count:
  assumes "str_truthy r" "p \<noteq> []" "t \<noteq> []"
    and "update_image_tags lower D r (Some p) (Some t) = (out, Inr D')"
  shows "length out = length (filter (\<lambda>(n, c). matches lower p c) (services_of D))"
  using update_image_tags_Inr[OF assms]
  by (auto simp: services_of_def split: option.splits)

lemma rewritten_top_level:
  assumes "str_truthy r" "p \<noteq> []" "t \<noteq> []"
    and "update_image_tags lower D r (Some p) (Some t) = (out, Inr D')"
  shows "keys D' = keys D" and "k \<noteq> ''services'' \<Longrightarrow> field D' k = field D k"
  using update_image_tags_Inr[OF assms]
  by (auto simp: keys_def field_def update_keys update_conv' key_in_dict split: option.splits)

lemma rewritten_unmatched:
  assumes "str_truthy r" "p \<noteq> []" "t \<noteq> []"
    and "update_image_tags lower D r (Some p) (Some t) = (out, Inr D')"
    and "\<forall>(n, c) \<in> set (services_of D). \<not> matches lower p c"
  shows "D' = D"
  using update_image_tags_Inr[OF assms(1-4)] update_services_unmatched[OF assms(5), where t = t]
  by (auto simp: update_triv split: option.splits)

lemma rewritten_service:
  assumes "str_truthy r" "p \<noteq> []" "t \<noteq> []"
    and "update_image_tags lower D r (Some p) (Some t) = (out, Inr D')"
    and "i < length (services_of D)"
  shows "snd (services_of D' ! i) =
           (if matches lower p (snd (services_of D ! i)) then set_tag t (snd (services_of D ! i))
            else snd (services_of D ! i))"
  unfolding rewritten_services[OF assms(1-4)] using assms(5)
  by (simp add: retag_service_def case_prod_unfold)

subsection \<open>Documents of the expected shape are rewritten without an exception\<close>

lemma update_service_wf:
  "wf_service c \<Longrightarrow> \<exists>out c'. update_service lower p t n c = (out, Inr c')"
  by (auto simp: wf_service_def update_service_def key_in_dict split_on_nonempty
      split: pyval.splits option.splits list.splits)

lemma update_services_wf:
  "list_all (\<lambda>(n, c). wf_service c) svs \<Longrightarrow> \<exists>out svs'. update_services lower p t svs = (out, Inr svs')"
proof (induction svs)
  case Nil
  then show ?case by simp
next
  case (Cons a svs)
  obtain n c where a: "a = (n, c)" by (cases a)
  from Cons.prems a obtain o1 c1 where "update_service lower p t n c = (o1, Inr c1)"
    using update_service_wf[where c = c and p = p and t = t and n = n and lower = lower] by auto
  moreover from Cons obtain o2 r2 where "update_services lower p t svs = (o2, Inr r2)" by auto
  ultimately show ?case using a by simp
qed

lemma update_image_tags_wf:
  assumes "wf_compose D"
  shows "\<exists>out D'. update_image_tags lower D r p t = (out, Inr D')"
proof (cases "str_truthy r \<and> str_truthy p \<and> str_truthy t")
  case False
  then show ?thesis by (auto simp: update_image_tags_def)
next
  case True
  then obtain pp tt where pt: "p = Some pp" "t = Some tt"
    by (cases p; cases t) auto
  from assms obtain doc where D: "D = PDict doc"
    by (auto simp: wf_compose_def split: pyval.splits)
  show ?thesis
  proof (cases "map_of doc ''services''")
    case None
    with True show ?thesis unfolding pt D update_image_tags_def by simp
  next
    case (Some v)
    with assms D obtain svs where v: "v = PDict svs" and all: "list_all (\<lambda>(n, c). wf_service c) svs"
      by (auto simp: wf_compose_def split: pyval.splits)
    from update_services_wf[OF all, where p = pp and t = tt and lower = lower] obtain out svs'
      where "update_services lower pp tt svs = (out, Inr svs')" by blast
    with True Some v show ?thesis unfolding pt D update_image_tags_def by simp
  qed
qed


subsection \<open>Documents without shared mappings\<close>

text \<open>On a document in which no mapping is shared the rewriter that assigns in place
  does what \<open>update_image_tags\<close> does, and leaves the store alone.\<close>

lemma map_of_unshared:
  "map_of (map (map_prod id unshared) d) k = map_option unshared (map_of d k)"
  by (induction d) auto

lemma update_unshared:
  "AList.update k (unshared v) (map (map_prod id unshared) d)
     = map (map_prod id unshared) (AList.update k v d)"
  by (induction d) auto

lemma unshared_str: "(unshared x = NStr s) = (x = PStr s)"
  by (cases x) auto

lemma unshared_str_mem: "(NStr s \<in> unshared ` set xs) = (PStr s \<in> set xs)"
proof (induction xs)
  case Nil
  then show ?case by simp
next
  case (Cons a xs)
  have "(NStr s = unshared a) = (a = PStr s)" using unshared_str[of a s] by auto
  with Cons show ?case by auto
qed

lemma has_image_unshared: "has_image_in h (unshared c) = has_image c"
  by (cases c) (simp_all add: unshared_str_mem)

lemma update_service_unshared:
  "update_service_in_place lower p t h n (unshared c) =
     (case update_service lower p t n c of
        (out, Inl e) \<Rightarrow> (out, Inl e)
      | (out, Inr c') \<Rightarrow> (out, Inr (h, unshared c')))"
proof (cases "has_image c")
  case (Inl e)
  then show ?thesis
    by (simp add: update_service_in_place_def update_service_def has_image_unshared)
next
  case (Inr b)
  show ?thesis
  proof (cases b)
    case False
    with Inr show ?thesis
      by (simp add: update_service_in_place_def update_service_def has_image_unshared)
  next
    case True
    with Inr show ?thesis
      by (cases c)
         (auto simp: update_service_in_place_def update_service_def has_image_unshared
            unshared_str_mem entries_def map_of_unshared unshared_str update_unshared[symmetric]
            split: option.splits pyval.splits list.splits)
  qed
qed

lemma update_services_unshared:
  "update_services_in_place lower p t h (map (map_prod id unshared) svs) =
     (case update_services lower p t svs of
        (out, Inl e) \<Rightarrow> (out, Inl e)
      | (out, Inr svs') \<Rightarrow> (out, Inr (h, map (map_prod id unshared) svs')))"
proof (induction svs)
  case Nil
  then show ?case by simp
next
  case (Cons a svs)
  obtain n c where a: "a = (n, c)" by (cases a)
  show ?case
    unfolding a using Cons.IH
    by (simp add: update_service_unshared split: prod.splits sum.splits)
qed

lemma update_image_tags_unshared:
  "update_image_tags_in_place lower (h, unshared D) r p t =
     (case update_image_tags lower D r p t of
        (out, Inl e) \<Rightarrow> (out, Inl e)
      | (out, Inr D') \<Rightarrow> (out, Inr (h, unshared D')))"
proof (cases "str_truthy r \<and> str_truthy p \<and> str_truthy t")
  case False
  then show ?thesis
    by (auto simp: update_image_tags_in_place_def update_image_tags_def)
next
  case True
  then obtain pp tt where pt: "p = Some pp" "t = Some tt"
    by (cases p; cases t) auto
  show ?thesis
  proof (cases D)
    case (PDict doc)
    show ?thesis
    proof (cases "map_of doc ''services''")
      case None
      with True PDict show ?thesis
        unfolding pt by (simp add: update_image_tags_in_place_def update_image_tags_def
            entries_def map_of_unshared)
    next
      case (Some v)
      with True PDict show ?thesis
        unfolding pt
        by (cases v)
           (simp_all add: update_image_tags_in_place_def update_image_tags_def
              entries_def map_of_unshared update_services_unshared
              update_unshared[where v = "PDict svs" for svs, simplified]
              split: prod.splits sum.splits)
    qed
  qed (use True in \<open>simp_all add: pt update_image_tags_in_place_def update_image_tags_def entries_def\<close>)
qed

lemma rewritten_each:
  assumes "str_truthy r" "p \<noteq> []" "t \<noteq> []"
    and "update_image_tags lower D r (Some p) (Some t) = (out, Inr D')"
    and "i < length (services_of D)"
  shows "let c = snd (services_of D ! i); c' = snd (services_of D' ! i) in
            if matches lower p c
            then (\<exists>img. image_of c = Some img \<and>
                    image_of c' = Some (repository img @ '':'' @ t) \<and>
                    repository (repository img @ '':'' @ t) = repository img) \<and>
                 keys c' = keys c \<and>
                 (\<forall>f. f \<noteq> ''image'' \<longrightarrow> field c' f = field c f)
            else c' = c"
proof -
  obtain n c where nc: "services_of D ! i = (n, c)" by (cases "services_of D ! i")
  have c': "snd (services_of D' ! i) = (if matches lower p c then set_tag t c else c)"
    using rewritten_service[OF assms] nc by simp
  show ?thesis
  proof (cases "matches lower p c")
    case False
    with c' nc show ?thesis by simp
  next
    case True
    then obtain img where img: "image_of c = Some img" using matches_image by blast
    from True c' nc img repository_retag[of img t] show ?thesis
      by (simp add: set_tag_image set_tag_keys set_tag_other_fields)
  qed
qed

lemma rewritten_names:
  assumes "str_truthy r" "p \<noteq> []" "t \<noteq> []"
    and "update_image_tags lower D r (Some p) (Some t) = (out, Inr D')"
  shows "map fst (services_of D') = map fst (services_of D)"
  unfolding rewritten_services[OF assms] by (simp add: retag_service_def case_prod_unfold)

text \<open>What is kept of a reference is the part before its first \<open>:\<close>, which for a registry
  with a port is the host name alone.\<close>

lemma registry_port_is_cut:
  "update_image_tags ascii_lower
     (PDict [(''services'', PDict [(''web'', PDict [(''image'', PStr ''host:5000/myorg/app:old'')])])])
     (Some ''host:5000'') (Some ''myorg/app'') (Some ''v2'')
   = ([Print (ImageUpdated ''web'' ''host:v2'')],
      Inr (PDict [(''services'', PDict [(''web'', PDict [(''image'', PStr ''host:v2'')])])]))"
  by code_simp


subsection \<open>The claims about the rewriter\<close>

text \<open>
  The claim as stated, that on every document the rewriter changes the image
  references of the matching services and nothing else, fails on a document with a
  shared mapping: the rewriter assigns in place, so the mapping changes at every place
  where it occurs. In
  \<open>example_shared\<close> the mapping of the service \<open>web\<close> is also the top-level entry
  \<open>x-app\<close>, which is not under \<open>services\<close>: after the rewrite with project path
  \<open>myorg/app\<close> and tag \<open>v2\<close>, in which \<open>web\<close> is the one service rewritten, \<open>x-app\<close>
  reads \<open>registry.example.com/myorg/app:v2\<close> where it read
  \<open>registry.example.com/myorg/app:old\<close>.
\<close>

theorem shared_mapping_changes_elsewhere:
  "entry (example_store, example_shared) ''x-app''
     = Some [(''image'', NStr ''registry.example.com/myorg/app:old'')] \<and>
   fst (update_image_tags_in_place ascii_lower (example_store, example_shared)
          (Some ''registry.example.com'') (Some ''myorg/app'') (Some ''v2''))
     = [Print (ImageUpdated ''web'' ''registry.example.com/myorg/app:v2'')] \<and>
   (case snd (update_image_tags_in_place ascii_lower (example_store, example_shared)
                (Some ''registry.example.com'') (Some ''myorg/app'') (Some ''v2'')) of
      Inl e \<Rightarrow> None
    | Inr compose_data' \<Rightarrow> entry compose_data' ''x-app'')
     = Some [(''image'', NStr ''registry.example.com/myorg/app:v2'')]"
  by code_simp

text \<open>
  Claim C1, for a document in which no mapping is shared. When the three control
  inputs are present and the rewriter returns, the result is again such a document
  and the store is as it was; a project path that matches no service leaves the
  document as it was; otherwise one image is assigned per matching service (one line
  printed for each), the top-level keys, every top-level entry other than \<open>services\<close>
  and the service names stay as they were, a service that does not match is
  unchanged, and a matching service keeps its keys and every field other than
  \<open>image\<close>, its new image being the old part before the first \<open>:\<close> followed by \<open>:\<close> and
  the tag, a reference whose part before the first \<open>:\<close> is the same as before. A
  service matches when the lower-cased project path is a substring of its lower-cased
  image reference, whatever \<^verbatim>\<open>str.lower()\<close> is. The repository of a reference is
  here what the rewriter's split makes it, the part before the first \<open>:\<close>: for a
  reference whose registry carries a port, such as \<open>host:5000/myorg/app:old\<close>, that
  part is \<open>host\<close> and the result is \<open>host:v2\<close> (\<open>registry_port_is_cut\<close>).
\<close>

theorem update_image_tags_rewrites_matching:
  assumes "str_truthy r" "p \<noteq> []" "t \<noteq> []"
    and "update_image_tags_in_place lower (h, unshared D) r (Some p) (Some t)
           = (out, Inr (h', G'))"
  shows "h' = h \<and>
         (\<exists>D'. G' = unshared D' \<and>
            ((\<forall>(n, c) \<in> set (services_of D). \<not> matches lower p c) \<longrightarrow> D' = D) \<and>
            length out = length (filter (\<lambda>(n, c). matches lower p c) (services_of D)) \<and>
            keys D' = keys D \<and>
            (\<forall>k. k \<noteq> ''services'' \<longrightarrow> field D' k = field D k) \<and>
            map fst (services_of D') = map fst (services_of D) \<and>
            (\<forall>i < length (services_of D).
               let c = snd (services_of D ! i); c' = snd (services_of D' ! i) in
               if matches lower p c
               then (\<exists>img. image_of c = Some img \<and>
                       image_of c' = Some (repository img @ '':'' @ t) \<and>
                       repository (repository img @ '':'' @ t) = repository img) \<and>
                    keys c' = keys c \<and>
                    (\<forall>f. f \<noteq> ''image'' \<longrightarrow> field c' f = field c f)
               else c' = c))"
proof -
  from assms(4) obtain D' where
    run: "update_image_tags lower D r (Some p) (Some t) = (out, Inr D')" and
    same: "h' = h" "G' = unshared D'"
    unfolding update_image_tags_unshared
    by (cases "update_image_tags lower D r (Some p) (Some t)") (auto split: sum.splits)
  note a = assms(1-3) run
  have each: "\<forall>i < length (services_of D).
               let c = snd (services_of D ! i); c' = snd (services_of D' ! i) in
               if matches lower p c
               then (\<exists>img. image_of c = Some img \<and>
                       image_of c' = Some (repository img @ '':'' @ t) \<and>
                       repository (repository img @ '':'' @ t) = repository img) \<and>
                    keys c' = keys c \<and>
                    (\<forall>f. f \<noteq> ''image'' \<longrightarrow> field c' f = field c f)
               else c' = c"
    using rewritten_each[OF a] by blast
  from rewritten_unmatched[OF a] rewritten_count[OF a] rewritten_top_level[OF a]
    rewritten_names[OF a] each same
  show ?thesis by blast
qed

theorem update_image_tags_rewrites_matching_witness:
  "str_truthy (Some ''registry.example.com'') \<and> ''MyOrg/App'' \<noteq> [] \<and> ''v2'' \<noteq> [] \<and>
   update_image_tags_in_place ascii_lower (example_store, unshared example_compose)
       (Some ''registry.example.com'') (Some ''MyOrg/App'') (Some ''v2'')
     = ([Print (ImageUpdated ''web'' ''registry.example.com/myorg/app:v2'')],
        Inr (example_store, unshared (PDict [(''version'', PStr ''3''),
            (''services'', PDict
               [(''web'', PDict [(''image'', PStr ''registry.example.com/myorg/app:v2''),
                                 (''ports'', PList [PStr ''80:80''])]),
                (''db'', PDict [(''image'', PStr ''postgres:13'')])])]))) \<and>
   length (filter (\<lambda>(n, c). matches ascii_lower ''MyOrg/App'' c) (services_of example_compose)) = 1"
proof -
  have tree: "update_image_tags ascii_lower example_compose (Some ''registry.example.com'') (Some ''MyOrg/App'') (Some ''v2'')
     = ([Print (ImageUpdated ''web'' ''registry.example.com/myorg/app:v2'')],
        Inr (PDict [(''version'', PStr ''3''),
            (''services'', PDict
               [(''web'', PDict [(''image'', PStr ''registry.example.com/myorg/app:v2''),
                                 (''ports'', PList [PStr ''80:80''])]),
                (''db'', PDict [(''image'', PStr ''postgres:13'')])])]))"
    by code_simp
  have run: "update_image_tags_in_place ascii_lower (example_store, unshared example_compose)
       (Some ''registry.example.com'') (Some ''MyOrg/App'') (Some ''v2'')
     = ([Print (ImageUpdated ''web'' ''registry.example.com/myorg/app:v2'')],
        Inr (example_store, unshared (PDict [(''version'', PStr ''3''),
            (''services'', PDict
               [(''web'', PDict [(''image'', PStr ''registry.example.com/myorg/app:v2''),
                                 (''ports'', PList [PStr ''80:80''])]),
                (''db'', PDict [(''image'', PStr ''postgres:13'')])])])))"
    unfolding update_image_tags_unshared tree by simp
  have "str_truthy (Some ''registry.example.com'')" "''MyOrg/App'' \<noteq> []" "''v2'' \<noteq> []"
    by simp_all
  from update_image_tags_rewrites_matching[OF this run]
  have "length [Print (ImageUpdated ''web'' ''registry.example.com/myorg/app:v2'')]
         = length (filter (\<lambda>(n, c). matches ascii_lower ''MyOrg/App'' c) (services_of example_compose))"
    by blast
  with run show ?thesis by simp
qed

text \<open>
  Claim C5. Running the rewriter on its own result gives that result again: twice is
  the same as once, for every document and every three control inputs (when the first
  run raises, so does the pair).
\<close>

theorem update_image_tags_idempotent:
  "snd (rewrite_twice lower D r p t) = snd (update_image_tags lower D r p t)"
proof (cases "update_image_tags lower D r p t")
  case (Pair out res)
  show ?thesis
  proof (cases res)
    case (Inl e)
    with Pair show ?thesis by (simp add: rewrite_twice_def)
  next
    case (Inr D')
    with Pair update_image_tags_again[where D = D and r = r and p = p and t = t and out = out and D' = D' and lower = lower] show ?thesis
      by (cases "update_image_tags lower D' r p t") (simp add: rewrite_twice_def)
  qed
qed

theorem update_image_tags_idempotent_witness:
  "snd (rewrite_twice ascii_lower example_compose (Some ''registry.example.com'') (Some ''MyOrg/App'') (Some ''v2''))
     = Inr (PDict [(''version'', PStr ''3''),
            (''services'', PDict
               [(''web'', PDict [(''image'', PStr ''registry.example.com/myorg/app:v2''),
                                 (''ports'', PList [PStr ''80:80''])]),
                (''db'', PDict [(''image'', PStr ''postgres:13'')])])])"
proof -
  have once: "snd (update_image_tags ascii_lower example_compose
                (Some ''registry.example.com'') (Some ''MyOrg/App'') (Some ''v2''))
     = Inr (PDict [(''version'', PStr ''3''),
            (''services'', PDict
               [(''web'', PDict [(''image'', PStr ''registry.example.com/myorg/app:v2''),
                                 (''ports'', PList [PStr ''80:80''])]),
                (''db'', PDict [(''image'', PStr ''postgres:13'')])])])"
    by code_simp
  show ?thesis
    using update_image_tags_idempotent[where D = example_compose and lower = ascii_lower
        and r = "Some ''registry.example.com''" and p = "Some ''MyOrg/App''" and t = "Some ''v2''"] once
    by simp
qed

text \<open>
  Claim C6. A matching service whose image reference has no \<open>:\<close> is rewritten too, to
  the whole reference followed by \<open>:\<close> and the tag;
  \<open>registry.example.com/myorg/app\<close> with tag \<open>v2\<close> becomes
  \<open>registry.example.com/myorg/app:v2\<close>. A service matches when the lower-cased
  project path is a substring of its lower-cased reference, whatever \<^verbatim>\<open>str.lower()\<close>
  is.
\<close>

theorem update_image_tags_untagged:
  assumes "str_truthy r" "p \<noteq> []" "t \<noteq> []"
    and "update_image_tags lower D r (Some p) (Some t) = (out, Inr D')"
    and "i < length (services_of D)"
    and "image_of (snd (services_of D ! i)) = Some img"
    and "py_in (lower p) (lower img)"
    and "CHR '':'' \<notin> set img"
  shows "image_of (snd (services_of D' ! i)) = Some (img @ '':'' @ t)"
proof -
  have "matches lower p (snd (services_of D ! i))"
    using assms(6,7) by (simp add: matches_def)
  with rewritten_service[OF assms(1-5)]
  have "snd (services_of D' ! i) = set_tag t (snd (services_of D ! i))" by simp
  with set_tag_image[OF assms(6), of t] repository_no_colon[OF assms(8)]
  show ?thesis by simp
qed

theorem update_image_tags_untagged_witness:
  "str_truthy (Some ''registry.example.com'') \<and> ''myorg/app'' \<noteq> [] \<and> ''v2'' \<noteq> [] \<and>
   update_image_tags ascii_lower example_untagged (Some ''registry.example.com'') (Some ''myorg/app'') (Some ''v2'')
     = ([Print (ImageUpdated ''web'' ''registry.example.com/myorg/app:v2'')],
        Inr (PDict [(''services'', PDict
               [(''web'', PDict [(''image'', PStr ''registry.example.com/myorg/app:v2'')])])])) \<and>
   (0::nat) < length (services_of example_untagged) \<and>
   image_of (snd (services_of example_untagged ! 0)) = Some ''registry.example.com/myorg/app'' \<and>
   py_in (ascii_lower ''myorg/app'') (ascii_lower ''registry.example.com/myorg/app'') \<and>
   CHR '':'' \<notin> set ''registry.example.com/myorg/app'' \<and>
   image_of (snd (services_of (PDict [(''services'', PDict
               [(''web'', PDict [(''image'', PStr ''registry.example.com/myorg/app:v2'')])])]) ! 0))
     = Some (''registry.example.com/myorg/app'' @ '':'' @ ''v2'')"
proof -
  have run: "update_image_tags ascii_lower example_untagged (Some ''registry.example.com'') (Some ''myorg/app'') (Some ''v2'')
     = ([Print (ImageUpdated ''web'' ''registry.example.com/myorg/app:v2'')],
        Inr (PDict [(''services'', PDict
               [(''web'', PDict [(''image'', PStr ''registry.example.com/myorg/app:v2'')])])]))"
    by code_simp
  have i: "(0::nat) < length (services_of example_untagged)" by code_simp
  have img: "image_of (snd (services_of example_untagged ! 0)) = Some ''registry.example.com/myorg/app''"
    by code_simp
  have m: "py_in (ascii_lower ''myorg/app'') (ascii_lower ''registry.example.com/myorg/app'')" by code_simp
  have nc: "CHR '':'' \<notin> set ''registry.example.com/myorg/app''" by simp
  from update_image_tags_untagged[OF _ _ _ run i img m nc] run i img m nc
  show ?thesis by simp
qed

subsection \<open>Services that share a mapping\<close>

text \<open>A matching reference without \<open>:\<close> ends as the reference, \<open>:\<close> and the tag also
  when the mapping of its service is shared with other services or other places of the
  document, for a \<open>services\<close> mapping that is not itself shared: the mapping may have
  been rewritten already when the loop reaches the service, and may be rewritten again
  after it.\<close>

lemma image_at_has_image:
  "image_at h c = Some v \<Longrightarrow> has_image_in h c = Inr True"
  by (cases c) (auto simp: image_at_def entries_def key_in_dict[symmetric] dest: map_of_SomeD
        intro: rev_image_eqI)

lemma update_service_in_place_Inr:
  assumes "update_service_in_place lower p t h n c = (out, Inr (h1, c1))"
  shows "if (\<exists>s. image_at h c = Some (NStr s) \<and> py_in (lower p) (lower s))
         then (\<exists>s. image_at h c = Some (NStr s) \<and>
                 ((\<exists>a. c = Alias a \<and> c1 = c \<and>
                       h1 = h(a := AList.update ''image'' (NStr (repository s @ '':'' @ t)) (h a))) \<or>
                  (\<exists>cfg. c = NDict cfg \<and> h1 = h \<and>
                       c1 = NDict (AList.update ''image'' (NStr (repository s @ '':'' @ t)) cfg))))
         else h1 = h \<and> c1 = c"
proof (cases "\<exists>s. image_at h c = Some (NStr s) \<and> py_in (lower p) (lower s)")
  case True
  then obtain s where s: "image_at h c = Some (NStr s)" and m: "py_in (lower p) (lower s)" by blast
  obtain ws where ws: "split_on CHR '':'' s = repository s # ws"
    using split_on_hd[of "CHR '':''" s] unfolding repository_def by blast
  from s obtain cfg where cfg: "entries h c = Some cfg" "map_of cfg ''image'' = Some (NStr s)"
    by (auto simp: image_at_def split: option.splits)
  from assms image_at_has_image[OF s] cfg m ws
  have "(h1, c1) = (case c of
           Alias a \<Rightarrow> (h(a := AList.update ''image'' (NStr (repository s @ '':'' @ t)) cfg), c)
         | _ \<Rightarrow> (h, NDict (AList.update ''image'' (NStr (repository s @ '':'' @ t)) cfg)))"
    by (simp add: update_service_in_place_def)
  with cfg s True show ?thesis
    by (cases c) (auto simp: entries_def)
next
  case False
  with assms show ?thesis
    by (auto simp: update_service_in_place_def image_at_def
        split: sum.splits bool.splits option.splits node.splits if_splits list.splits)
qed


text \<open>What a turn of the loop does to the image entry of any service, the one it is
  at or another: it leaves the entry, or replaces the reference \<open>s\<close> by the part of \<open>s\<close>
  before its first \<open>:\<close>, \<open>:\<close> and the tag. A reference \<open>img\<close> without \<open>:\<close> stays
  \<open>img\<close> or becomes \<open>img:t\<close>, and \<open>img:t\<close> stays what it is.\<close>

lemma image_at_fun_upd_other:
  "k \<noteq> ''image'' \<Longrightarrow> image_at (h(a := AList.update k v (h a))) x = image_at h x"
  by (cases x) (auto simp: image_at_def entries_def update_conv')

lemma turn_image:
  assumes "update_service_in_place lower p t h n c = (out, Inr (h1, c1))"
  shows "image_at h1 x = image_at h x \<or>
         (\<exists>s. image_at h x = Some (NStr s) \<and>
              image_at h1 x = Some (NStr (repository s @ '':'' @ t)))"
proof -
  from update_service_in_place_Inr[OF assms]
  consider "h1 = h" |
    s a where "image_at h c = Some (NStr s)" "c = Alias a"
      "h1 = h(a := AList.update ''image'' (NStr (repository s @ '':'' @ t)) (h a))"
    by (auto split: if_splits)
  then show ?thesis
  proof cases
    case 1
    then show ?thesis by simp
  next
    case 2
    then show ?thesis
      by (cases x) (auto simp: image_at_def entries_def update_conv')
  qed
qed

lemma turn_keeps_pending:
  assumes "update_service_in_place lower p t h n c = (out, Inr (h1, c1))"
    and "CHR '':'' \<notin> set img"
    and "image_at h x = Some (NStr img) \<or> image_at h x = Some (NStr (img @ '':'' @ t))"
  shows "image_at h1 x = Some (NStr img) \<or> image_at h1 x = Some (NStr (img @ '':'' @ t))"
  using turn_image[OF assms(1), of x] assms(3)
    repository_no_colon[OF assms(2)] repository_retag[of img t]
  by auto

lemma turn_keeps_settled:
  assumes "update_service_in_place lower p t h n c = (out, Inr (h1, c1))"
    and "CHR '':'' \<notin> set img"
    and "image_at h x = Some (NStr (img @ '':'' @ t))"
  shows "image_at h1 x = Some (NStr (img @ '':'' @ t))"
  using turn_image[OF assms(1), of x] assms(3)
    repository_no_colon[OF assms(2)] repository_retag[of img t]
  by auto

lemma turn_settles:
  assumes "update_service_in_place lower p t h n c = (out, Inr (h1, c1))"
    and "CHR '':'' \<notin> set img"
    and "py_in (lower p) (lower img)"
    and "image_at h c = Some (NStr img) \<or> image_at h c = Some (NStr (img @ '':'' @ t))"
  shows "image_at h1 c1 = Some (NStr (img @ '':'' @ t))"
proof (cases "\<exists>s. image_at h c = Some (NStr s) \<and> py_in (lower p) (lower s)")
  case False
  with update_service_in_place_Inr[OF assms(1)] have "h1 = h" "c1 = c" by auto
  with False assms(3,4) show ?thesis by auto
next
  case True
  with update_service_in_place_Inr[OF assms(1)] obtain s where
    s: "image_at h c = Some (NStr s)" and
    w: "(\<exists>a. c = Alias a \<and> c1 = c \<and>
            h1 = h(a := AList.update ''image'' (NStr (repository s @ '':'' @ t)) (h a))) \<or>
        (\<exists>cfg. c = NDict cfg \<and> h1 = h \<and>
            c1 = NDict (AList.update ''image'' (NStr (repository s @ '':'' @ t)) cfg))"
    by auto
  from s assms(4) repository_no_colon[OF assms(2)] repository_retag[of img t]
  have r: "repository s @ '':'' @ t = img @ '':'' @ t" by auto
  from w show ?thesis unfolding r
    by (auto simp: image_at_def entries_def update_conv')
qed

lemma loop_keeps_settled:
  "update_services_in_place lower p t h svs = (out, Inr (h', svs')) \<Longrightarrow>
   CHR '':'' \<notin> set img \<Longrightarrow>
   image_at h x = Some (NStr (img @ '':'' @ t)) \<Longrightarrow>
   image_at h' x = Some (NStr (img @ '':'' @ t))"
proof (induction svs arbitrary: h out svs')
  case Nil
  then show ?case by simp
next
  case (Cons a svs)
  obtain n c where a: "a = (n, c)" by (cases a)
  from Cons.prems(1) a obtain o1 h1 c1 o2 r2 where
    s1: "update_service_in_place lower p t h n c = (o1, Inr (h1, c1))" and
    s2: "update_services_in_place lower p t h1 svs = (o2, Inr (h', r2))"
    by (auto split: prod.splits sum.splits)
  from turn_keeps_settled[OF s1 Cons.prems(2,3)] Cons.IH[OF s2 Cons.prems(2)]
  show ?case by simp
qed

lemma loop_settles:
  "update_services_in_place lower p t h svs = (out, Inr (h', svs')) \<Longrightarrow>
   CHR '':'' \<notin> set img \<Longrightarrow>
   py_in (lower p) (lower img) \<Longrightarrow>
   i < length svs \<Longrightarrow>
   image_at h (snd (svs ! i)) = Some (NStr img) \<or>
     image_at h (snd (svs ! i)) = Some (NStr (img @ '':'' @ t)) \<Longrightarrow>
   length svs' = length svs \<and> fst (svs' ! i) = fst (svs ! i) \<and>
   image_at h' (snd (svs' ! i)) = Some (NStr (img @ '':'' @ t))"
proof (induction svs arbitrary: h out svs' i)
  case Nil
  then show ?case by simp
next
  case (Cons a svs)
  obtain n c where a: "a = (n, c)" by (cases a)
  from Cons.prems(1) a obtain o1 h1 c1 o2 r2 where
    s1: "update_service_in_place lower p t h n c = (o1, Inr (h1, c1))" and
    s2: "update_services_in_place lower p t h1 svs = (o2, Inr (h', r2))" and
    res: "svs' = (n, c1) # r2"
    by (auto split: prod.splits sum.splits)
  have len: "length r2 = length svs"
    using s2 by (induction svs arbitrary: h1 o2 r2) (auto split: prod.splits sum.splits)
  show ?case
  proof (cases i)
    case 0
    with Cons.prems(5) a have "image_at h c = Some (NStr img) \<or>
        image_at h c = Some (NStr (img @ '':'' @ t))" by simp
    from turn_settles[OF s1 Cons.prems(2,3) this]
    have "image_at h1 c1 = Some (NStr (img @ '':'' @ t))" .
    from loop_keeps_settled[OF s2 Cons.prems(2) this] 0 res a len show ?thesis by simp
  next
    case (Suc j)
    with Cons.prems(4) have j: "j < length svs" by simp
    from Cons.prems(5) Suc have "image_at h (snd (svs ! j)) = Some (NStr img) \<or>
        image_at h (snd (svs ! j)) = Some (NStr (img @ '':'' @ t))" by simp
    from turn_keeps_pending[OF s1 Cons.prems(2) this]
    have "image_at h1 (snd (svs ! j)) = Some (NStr img) \<or>
        image_at h1 (snd (svs ! j)) = Some (NStr (img @ '':'' @ t))" .
    from Cons.IH[OF s2 Cons.prems(2,3) j this] Suc res show ?thesis by simp
  qed
qed

lemma update_image_tags_in_place_untagged:
  assumes "str_truthy r" "p \<noteq> []" "t \<noteq> []"
    and "entries h root = Some doc"
    and "map_of doc ''services'' = Some (NDict svs)"
    and "update_image_tags_in_place lower (h, root) r (Some p) (Some t) = (out, Inr (h', root'))"
    and "i < length svs"
    and "image_at h (snd (svs ! i)) = Some (NStr img)"
    and "py_in (lower p) (lower img)"
    and "CHR '':'' \<notin> set img"
  shows "\<exists>doc' svs'. entries h' root' = Some doc' \<and>
           map_of doc' ''services'' = Some (NDict svs') \<and>
           map fst svs' = map fst svs \<and>
           image_at h' (snd (svs' ! i)) = Some (NStr (img @ '':'' @ t))"
proof -
  from assms(1-6) obtain h1 svs' where
    loop: "update_services_in_place lower p t h svs = (out, Inr (h1, svs'))" and
    res: "(h', root') = (case root of
             Alias a \<Rightarrow> (h1(a := AList.update ''services'' (NDict svs') (h1 a)), root)
           | _ \<Rightarrow> (h1, NDict (AList.update ''services'' (NDict svs') doc)))"
    by (auto simp: update_image_tags_in_place_def split: prod.splits sum.splits)
  from loop_settles[OF loop assms(10,9,7)] assms(8)
  have len: "length svs' = length svs"
    and img: "image_at h1 (snd (svs' ! i)) = Some (NStr (img @ '':'' @ t))" by auto
  have names: "map fst svs' = map fst svs"
    using loop by (induction svs arbitrary: h out svs') (auto split: prod.splits sum.splits)
  show ?thesis
  proof (cases root)
    case (Alias a)
    with res have "h' = h1(a := AList.update ''services'' (NDict svs') (h1 a))" "root' = Alias a"
      by simp_all
    with img names show ?thesis
      by (simp add: entries_def update_conv' image_at_fun_upd_other)
  next
    case (NDict d)
    with res assms(4) have "h' = h1" "root' = NDict (AList.update ''services'' (NDict svs') doc)"
      by (simp_all add: entries_def)
    with img names show ?thesis by (simp add: entries_def update_conv')
  qed (use assms(4) in \<open>simp_all add: entries_def\<close>)
qed

text \<open>Two services sharing one mapping.\<close>

lemma shared_services_example:
  "(case update_image_tags_in_place ascii_lower
           (\<lambda>a. [(''image'', NStr ''registry.example.com/myorg/app'')],
            NDict [(''services'', NDict [(''web'', Alias 0), (''worker'', Alias 0)])])
           (Some ''registry.example.com'') (Some ''myorg/app'') (Some ''v2'') of
      (out, Inl e) \<Rightarrow> None
    | (out, Inr (h', root')) \<Rightarrow> Some (out, h' 0, root'))
   = Some ([Print (ImageUpdated ''web'' ''registry.example.com/myorg/app:v2''),
            Print (ImageUpdated ''worker'' ''registry.example.com/myorg/app:v2'')],
           [(''image'', NStr ''registry.example.com/myorg/app:v2'')],
           NDict [(''services'', NDict [(''web'', Alias 0), (''worker'', Alias 0)])])"
  by code_simp

section \<open>Properties of the stack lookup\<close>

lemma find_stack_skip:
  "list_all is_object pre \<Longrightarrow> \<not> list_ex (stack_matches e n) pre \<Longrightarrow>
     find_stack e n (pre @ rest) = find_stack e n rest"
proof (induction pre)
  case Nil
  then show ?case by simp
next
  case (Cons s pre)
  from Cons.prems obtain d where s: "s = PDict d"
    by (auto simp: is_object_def split: pyval.splits)
  from Cons.prems have nomatch: "\<not> stack_matches e n s" by simp
  from Cons have IH: "find_stack e n (pre @ rest) = find_stack e n rest" by simp
  from nomatch show ?case
    unfolding s by (simp add: stack_matches_def IH)
qed

lemma find_stack_hit:
  "is_object stack \<Longrightarrow> stack_matches e n stack \<Longrightarrow>
     find_stack e n (stack # rest) = py_get stack ''Id''"
  by (auto simp: is_object_def stack_matches_def split: pyval.splits sum.splits)

lemma py_get_field:
  "is_object stack \<Longrightarrow> py_get stack k = Inr (case field stack k of None \<Rightarrow> PNone | Some v \<Rightarrow> v)"
  by (auto simp: is_object_def field_def split: pyval.splits)

lemma get_stack_id_listed:
  assumes "get_stacks a = Some r" "raise_for_status r = Inr ()" "body_json r = Some (PList stacks)"
  shows "get_stack_id a e n =
           (case find_stack e n stacks of
              Inl x \<Rightarrow> ([Request GetStacks, Print (StackIdError x)], PNone)
            | Inr i \<Rightarrow> ([Request GetStacks], i))"
  using assms by (simp add: get_stack_id_def get_stack_id_try_def response_json_def)

lemma get_stack_id_failed:
  assumes "get_stacks a = None \<or>
           (\<exists>r. get_stacks a = Some r \<and> (raise_for_status r \<noteq> Inr () \<or> body_json r = None))"
  shows "\<exists>x. get_stack_id a e n = ([Request GetStacks, Print (StackIdError x)], PNone)"
  using assms
  by (auto simp: get_stack_id_def get_stack_id_try_def response_json_def
      split: option.splits sum.splits)

text \<open>
  Claim C8. When the listing succeeds and every stack listed before the first match is
  an object, \<^verbatim>\<open>get_stack_id\<close> returns the \<open>Id\<close> of the first listed stack whose
  \<open>Name\<close> and \<open>EndpointId\<close> both match (\<^verbatim>\<open>None\<close> when that stack has no \<open>Id\<close>);
  when no listed stack matches it returns \<^verbatim>\<open>None\<close>; when the listing call fails (no
  response, a status that \<^verbatim>\<open>raise_for_status\<close> rejects, or a body that is not JSON)
  it prints the error and returns \<^verbatim>\<open>None\<close>. It always returns: its result has no
  exceptional case. The comparison with the environment id is Python's \<^verbatim>\<open>==\<close> on an
  \<^verbatim>\<open>int\<close>.
\<close>

theorem get_stack_id_first_match:
  "(get_stacks a = Some r \<and> raise_for_status r = Inr () \<and>
      body_json r = Some (PList (pre @ stack # post)) \<and>
      list_all is_object pre \<and> \<not> list_ex (stack_matches e n) pre \<and>
      is_object stack \<and> stack_matches e n stack
    \<longrightarrow> get_stack_id a e n =
          ([Request GetStacks], case field stack ''Id'' of None \<Rightarrow> PNone | Some i \<Rightarrow> i)) \<and>
   (get_stacks a = Some r \<and> raise_for_status r = Inr () \<and>
      body_json r = Some (PList stacks) \<and>
      list_all is_object stacks \<and> \<not> list_ex (stack_matches e n) stacks
    \<longrightarrow> get_stack_id a e n = ([Request GetStacks], PNone)) \<and>
   (get_stacks a = None \<or>
      (\<exists>r. get_stacks a = Some r \<and> (raise_for_status r \<noteq> Inr () \<or> body_json r = None))
    \<longrightarrow> (\<exists>x. get_stack_id a e n = ([Request GetStacks, Print (StackIdError x)], PNone)))"
proof (intro conjI impI)
  assume h: "get_stacks a = Some r \<and> raise_for_status r = Inr () \<and>
      body_json r = Some (PList (pre @ stack # post)) \<and>
      list_all is_object pre \<and> \<not> list_ex (stack_matches e n) pre \<and>
      is_object stack \<and> stack_matches e n stack"
  then have "find_stack e n (pre @ stack # post) = find_stack e n (stack # post)"
    by (intro find_stack_skip) simp_all
  also from h have "\<dots> = py_get stack ''Id''"
    by (intro find_stack_hit) simp_all
  finally have "find_stack e n (pre @ stack # post) = py_get stack ''Id''" .
  with h show "get_stack_id a e n =
          ([Request GetStacks], case field stack ''Id'' of None \<Rightarrow> PNone | Some i \<Rightarrow> i)"
    by (simp add: get_stack_id_listed py_get_field)
next
  assume h: "get_stacks a = Some r \<and> raise_for_status r = Inr () \<and>
      body_json r = Some (PList stacks) \<and>
      list_all is_object stacks \<and> \<not> list_ex (stack_matches e n) stacks"
  then have "find_stack e n (stacks @ []) = find_stack e n []"
    by (intro find_stack_skip) simp_all
  with h show "get_stack_id a e n = ([Request GetStacks], PNone)"
    by (simp add: get_stack_id_listed)
next
  assume "get_stacks a = None \<or>
      (\<exists>r. get_stacks a = Some r \<and> (raise_for_status r \<noteq> Inr () \<or> body_json r = None))"
  then show "\<exists>x. get_stack_id a e n = ([Request GetStacks, Print (StackIdError x)], PNone)"
    by (rule get_stack_id_failed)
qed

theorem get_stack_id_first_match_witness:
  "get_stack_id (example_api [example_other, example_stack 5, example_stack 9] 200) 1
     (Some ''qa-stack'') = ([Request GetStacks], PInt 5) \<and>
   get_stack_id (example_api [example_other] 200) 1 (Some ''qa-stack'')
     = ([Request GetStacks], PNone) \<and>
   (\<exists>x. get_stack_id ((example_api [example_stack 5] 200)\<lparr>get_stacks := None\<rparr>) 1
          (Some ''qa-stack'') = ([Request GetStacks, Print (StackIdError x)], PNone))"
proof -
  let ?n = "Some ''qa-stack''"
  let ?a1 = "example_api [example_other, example_stack 5, example_stack 9] 200"
  let ?r1 = "\<lparr>status_code = 200, body_text = ''body'',
               body_json = Some (PList ([example_other] @ example_stack 5 # [example_stack 9]))\<rparr>"
  let ?a2 = "example_api [example_other] 200"
  let ?r2 = "\<lparr>status_code = 200, body_text = ''body'', body_json = Some (PList [example_other])\<rparr>"
  let ?a3 = "(example_api [example_stack 5] 200)\<lparr>get_stacks := None\<rparr>"
  have h1: "get_stacks ?a1 = Some ?r1 \<and> raise_for_status ?r1 = Inr () \<and>
      body_json ?r1 = Some (PList ([example_other] @ example_stack 5 # [example_stack 9])) \<and>
      list_all is_object [example_other] \<and> \<not> list_ex (stack_matches 1 ?n) [example_other] \<and>
      is_object (example_stack 5) \<and> stack_matches 1 ?n (example_stack 5)"
    by code_simp
  have i: "(case field (example_stack 5) ''Id'' of None \<Rightarrow> PNone | Some i \<Rightarrow> i) = PInt 5"
    by code_simp
  have h2: "get_stacks ?a2 = Some ?r2 \<and> raise_for_status ?r2 = Inr () \<and>
      body_json ?r2 = Some (PList [example_other]) \<and>
      list_all is_object [example_other] \<and> \<not> list_ex (stack_matches 1 ?n) [example_other]"
    by code_simp
  have h3: "get_stacks ?a3 = None" by code_simp
  from get_stack_id_first_match[where a = ?a1 and r = ?r1 and pre = "[example_other]"
      and stack = "example_stack 5" and post = "[example_stack 9]" and e = 1 and n = ?n] h1 i
  have 1: "get_stack_id ?a1 1 ?n = ([Request GetStacks], PInt 5)" by simp
  from get_stack_id_first_match[where a = ?a2 and r = ?r2 and stacks = "[example_other]"
      and e = 1 and n = ?n] h2
  have 2: "get_stack_id ?a2 1 ?n = ([Request GetStacks], PNone)" by blast
  from get_stack_id_first_match[where a = ?a3 and e = 1 and n = ?n] h3
  have 3: "\<exists>x. get_stack_id ?a3 1 ?n = ([Request GetStacks, Print (StackIdError x)], PNone)"
    by blast
  from 1 2 3 show ?thesis by blast
qed

section \<open>Properties of the previous-tag resolution\<close>

lemma query_previous_tag_nonempty:
  "snd (query_previous_tag_from_registry args w) \<noteq> []"
  by (simp add: query_previous_tag_from_registry_def Let_def)

lemma get_previous_tag_explicit:
  "previous_tag args = Some t \<Longrightarrow> t \<noteq> [] \<Longrightarrow>
     get_previous_tag args w = ([Print (UsingProvidedTag t)], Inr t)"
  by (simp add: get_previous_tag_def)

lemma get_previous_tag_artifact:
  "\<not> str_truthy (previous_tag args) \<Longrightarrow> artifact_at w = Some (Content (JsonObject data)) \<Longrightarrow>
   map_of data ''last_successful_tag'' = Some t \<Longrightarrow> t \<noteq> [] \<Longrightarrow>
     get_previous_tag args w = ([Print (UsingArtifactTag t)], Inr t)"
  by (cases "previous_tag args") (simp_all add: get_previous_tag_def read_artifact_tag_def)

lemma read_artifact_tag_none:
  "no_artifact_tag f \<Longrightarrow> snd (read_artifact_tag f) = None"
  by (auto simp: no_artifact_tag_def read_artifact_tag_def
      split: option.splits on_disk.splits artifact_json.splits)

lemma get_previous_tag_fallback:
  assumes "\<not> str_truthy (previous_tag args)" "no_artifact_tag (artifact_at w)"
  shows "snd (get_previous_tag args w) =
           Inr ((case ci_commit_ref_name w of None \<Rightarrow> ''main'' | Some b \<Rightarrow> b) @ ''-latest'')"
proof -
  obtain out where "read_artifact_tag (artifact_at w) = (out, None)"
    using read_artifact_tag_none[OF assms(2)] by (cases "read_artifact_tag (artifact_at w)") auto
  with assms(1) show ?thesis
    by (cases "previous_tag args")
       (simp_all add: get_previous_tag_def query_previous_tag_from_registry_def Let_def)
qed

lemma get_previous_tag_total:
  "\<exists>t. snd (get_previous_tag args w) = Inr t \<and> t \<noteq> []"
proof -
  obtain out r where rd: "read_artifact_tag (artifact_at w) = (out, r)"
    by (cases "read_artifact_tag (artifact_at w)")
  have r: "r = Some t \<Longrightarrow> t \<noteq> []" for t
    using rd by (auto simp: read_artifact_tag_def
        split: option.splits on_disk.splits artifact_json.splits if_splits)
  obtain out' q where q: "query_previous_tag_from_registry args w = (out', q)"
    by (cases "query_previous_tag_from_registry args w")
  with query_previous_tag_nonempty[of args w] have q': "q \<noteq> []" by simp
  show ?thesis
    using rd r q q'
    by (cases "previous_tag args"; cases r) (auto simp: get_previous_tag_def)
qed

text \<open>
  Claim C3. \<^verbatim>\<open>get_previous_tag\<close> follows its chain in order: a non-empty explicit
  \<^verbatim>\<open>--previous-tag\<close> is returned whatever the artifact file and the environment hold;
  without one, a non-empty \<open>last_successful_tag\<close> of the artifact file is returned;
  when the artifact gives no tag the result is the branch name followed by \<open>-latest\<close>,
  the branch being \<open>main\<close> when \<^verbatim>\<open>CI_COMMIT_REF_NAME\<close> is not set. In every case a
  non-empty tag is returned, so the exit of the last two lines is never taken.
\<close>

theorem get_previous_tag_chain:
  "(previous_tag args = Some t \<and> t \<noteq> []
      \<longrightarrow> get_previous_tag args w = ([Print (UsingProvidedTag t)], Inr t)) \<and>
   (\<not> str_truthy (previous_tag args) \<and> artifact_at w = Some (Content (JsonObject data)) \<and>
      map_of data ''last_successful_tag'' = Some t' \<and> t' \<noteq> []
      \<longrightarrow> get_previous_tag args w = ([Print (UsingArtifactTag t')], Inr t')) \<and>
   (\<not> str_truthy (previous_tag args) \<and> no_artifact_tag (artifact_at w)
      \<longrightarrow> snd (get_previous_tag args w) =
            Inr ((case ci_commit_ref_name w of None \<Rightarrow> ''main'' | Some b \<Rightarrow> b) @ ''-latest'')) \<and>
   (\<exists>tag. snd (get_previous_tag args w) = Inr tag \<and> tag \<noteq> [])"
  using get_previous_tag_explicit[of args t w] get_previous_tag_artifact[of args w data t']
    get_previous_tag_fallback[of args w] get_previous_tag_total[of args w]
  by blast

theorem get_previous_tag_chain_witness:
  "get_previous_tag (example_rollback_args\<lparr>previous_tag := Some ''v1''\<rparr>)
     (example_world (example_api [] 200)) = ([Print (UsingProvidedTag ''v1'')], Inr ''v1'') \<and>
   get_previous_tag example_rollback_args
     ((example_world (example_api [] 200))
        \<lparr>artifact_at := Some (Content (JsonObject [(''last_successful_tag'', ''v7'')]))\<rparr>)
     = ([Print (UsingArtifactTag ''v7'')], Inr ''v7'') \<and>
   snd (get_previous_tag example_rollback_args (example_world (example_api [] 200)))
     = Inr ''release/2.0-latest''"
proof -
  let ?A = example_rollback_args
  let ?W = "example_world (example_api [] 200)"
  let ?A1 = "?A\<lparr>previous_tag := Some ''v1''\<rparr>"
  let ?data = "[(''last_successful_tag'', ''v7'')]"
  let ?W2 = "?W\<lparr>artifact_at := Some (Content (JsonObject ?data))\<rparr>"
  have h1: "previous_tag ?A1 = Some ''v1'' \<and> ''v1'' \<noteq> []" by code_simp
  have h2: "\<not> str_truthy (previous_tag ?A) \<and> artifact_at ?W2 = Some (Content (JsonObject ?data)) \<and>
            map_of ?data ''last_successful_tag'' = Some ''v7'' \<and> ''v7'' \<noteq> []" by code_simp
  have h3: "\<not> str_truthy (previous_tag ?A) \<and> no_artifact_tag (artifact_at ?W)" by code_simp
  have b: "ci_commit_ref_name ?W = Some ''release/2.0''" by code_simp
  from get_previous_tag_chain[where args = ?A1 and t = "''v1''" and w = ?W] h1
  have 1: "get_previous_tag ?A1 ?W = ([Print (UsingProvidedTag ''v1'')], Inr ''v1'')" by blast
  from get_previous_tag_chain[where args = ?A and w = ?W2 and data = ?data and t' = "''v7''"] h2
  have 2: "get_previous_tag ?A ?W2 = ([Print (UsingArtifactTag ''v7'')], Inr ''v7'')" by blast
  from get_previous_tag_chain[where args = ?A and w = ?W] h3
  have "snd (get_previous_tag ?A ?W) =
          Inr ((case ci_commit_ref_name ?W of None \<Rightarrow> ''main'' | Some b \<Rightarrow> b) @ ''-latest'')"
    by blast
  with b have 3: "snd (get_previous_tag ?A ?W) = Inr ''release/2.0-latest''" by simp
  from 1 2 3 show ?thesis by blast
qed

section \<open>Properties of the two scripts\<close>

subsection \<open>Sequencing and the skipped rewrite\<close>

lemma requests_of_append: "requests_of (xs @ ys) = requests_of xs @ requests_of ys"
  by (induction xs rule: requests_of.induct) simp_all

lemma requests_of_mem: "(Request c \<in> set tr) = (c \<in> set (requests_of tr))"
  by (induction tr rule: requests_of.induct) auto

lemma and_then_Inl: "m = (out, Inl s) \<Longrightarrow> and_then m f = (out, Inl s)"
  by (simp add: and_then_def)

lemma and_then_Inr: "m = (out, Inr x) \<Longrightarrow> and_then m f = (out @ fst (f x), snd (f x))"
  by (simp add: and_then_def split: prod.splits)

lemma update_image_tags_skipped:
  "\<not> (str_truthy r \<and> str_truthy p \<and> str_truthy t) \<Longrightarrow>
     update_image_tags lower D r p t = ([Print TagUpdateSkipped], Inr D)"
  by (auto simp: update_image_tags_def)

lemma rollback_compose_skipped:
  assumes "validate_args args w = ([], Inr ())" "compose_at w = Some (Content D)"
    and "\<not> (str_truthy (registry_url args) \<and> str_truthy (project_path args))"
  shows "\<exists>out tag. rollback_compose args w = (out @ [Print TagUpdateSkipped], Inr (tag, D)) \<and>
           rollback_main_update args w =
             (out @ [Print TagUpdateSkipped] @ fst (rollback_reconcile args w tag D),
              snd (rollback_reconcile args w tag D))"
proof -
  obtain out tag where g: "get_previous_tag args w = (out, Inr tag)"
    using get_previous_tag_total[of args w] by (cases "get_previous_tag args w") auto
  have u: "update_image_tags (str_lower w) D (registry_url args) (project_path args) (Some tag)
             = ([Print TagUpdateSkipped], Inr D)"
    using assms(3) by (intro update_image_tags_skipped) auto
  have c: "rollback_compose args w = (out @ [Print TagUpdateSkipped], Inr (tag, D))"
    by (simp add: rollback_compose_def assms(1,2) g u and_then_def read_compose_file_def
        uncaught_def)
  then show ?thesis
    by (simp add: rollback_main_update_def and_then_def split: prod.splits)
qed

lemma deploy_compose_skipped:
  assumes "validate_args args w = ([], Inr ())" "compose_at w = Some (Content D)"
    and "\<not> (str_truthy (registry_url args) \<and> str_truthy (project_path args)
             \<and> str_truthy (image_tag args))"
  shows "deploy_compose args w = ([], Inr D) \<and> deploy_main args w = deploy_reconcile args w D"
proof -
  have c: "deploy_compose args w = ([], Inr D)"
    using assms by (auto simp: deploy_compose_def and_then_def read_compose_file_def)
  then show ?thesis
    by (simp add: deploy_main_def and_then_def split: prod.splits)
qed

text \<open>
  Claim C9. When the registry URL, the project path or the tag is absent (\<^verbatim>\<open>None\<close> or
  empty), \<^verbatim>\<open>update_image_tags\<close> prints its warning and returns the document as it
  is. The rollback script calls it in every run, so there the warning is printed and
  the run goes on to the reconciliation with the unchanged document. The deploy script
  tests the three inputs itself and does not call the rewriter when one is absent: it
  goes on to the reconciliation with the unchanged document as well.
\<close>

theorem update_image_tags_absent_input:
  "(\<not> (str_truthy r \<and> str_truthy p \<and> str_truthy t)
      \<longrightarrow> update_image_tags lower D r p t = ([Print TagUpdateSkipped], Inr D)) \<and>
   (validate_args rargs w = ([], Inr ()) \<and> compose_at w = Some (Content D) \<and>
    \<not> (str_truthy (registry_url rargs) \<and> str_truthy (project_path rargs))
      \<longrightarrow> (\<exists>out tag.
             rollback_compose rargs w = (out @ [Print TagUpdateSkipped], Inr (tag, D)) \<and>
             rollback_main_update rargs w =
               (out @ [Print TagUpdateSkipped] @ fst (rollback_reconcile rargs w tag D),
                snd (rollback_reconcile rargs w tag D)))) \<and>
   (validate_args dargs w = ([], Inr ()) \<and> compose_at w = Some (Content D) \<and>
    \<not> (str_truthy (registry_url dargs) \<and> str_truthy (project_path dargs)
         \<and> str_truthy (image_tag dargs))
      \<longrightarrow> deploy_compose dargs w = ([], Inr D) \<and>
          deploy_main dargs w = deploy_reconcile dargs w D)"
  using update_image_tags_skipped[where r = r and p = p and t = t and D = D and lower = lower] rollback_compose_skipped[of rargs w D]
    deploy_compose_skipped[of dargs w D]
  by blast

theorem update_image_tags_absent_input_witness:
  "update_image_tags ascii_lower example_compose None (Some ''myorg/app'') (Some ''v2'')
     = ([Print TagUpdateSkipped], Inr example_compose) \<and>
   (\<exists>out tag. rollback_compose (example_rollback_args\<lparr>registry_url := None\<rparr>)
                 (example_world (example_api [example_stack 5] 200))
               = (out @ [Print TagUpdateSkipped], Inr (tag, example_compose))) \<and>
   deploy_main (example_deploy_args\<lparr>image_tag := None\<rparr>)
               (example_world (example_api [example_stack 5] 200))
     = deploy_reconcile (example_deploy_args\<lparr>image_tag := None\<rparr>)
               (example_world (example_api [example_stack 5] 200)) example_compose"
proof -
  let ?W = "example_world (example_api [example_stack 5] 200)"
  let ?R = "example_rollback_args\<lparr>registry_url := None\<rparr>"
  let ?A = "example_deploy_args\<lparr>image_tag := None\<rparr>"
  have h1: "\<not> (str_truthy None \<and> str_truthy (Some ''myorg/app'') \<and> str_truthy (Some ''v2''))"
    by simp
  have h2: "validate_args ?R ?W = ([], Inr ()) \<and> compose_at ?W = Some (Content example_compose) \<and>
            \<not> (str_truthy (registry_url ?R) \<and> str_truthy (project_path ?R))"
    by code_simp
  have h3: "validate_args ?A ?W = ([], Inr ()) \<and> compose_at ?W = Some (Content example_compose) \<and>
            \<not> (str_truthy (registry_url ?A) \<and> str_truthy (project_path ?A)
                 \<and> str_truthy (image_tag ?A))"
    by code_simp
  from update_image_tags_absent_input[where r = None and p = "Some ''myorg/app''"
      and t = "Some ''v2''" and D = example_compose] h1
  have 1: "update_image_tags ascii_lower example_compose None (Some ''myorg/app'') (Some ''v2'')
     = ([Print TagUpdateSkipped], Inr example_compose)" by blast
  from update_image_tags_absent_input[where rargs = ?R and w = ?W and D = example_compose] h2
  have 2: "\<exists>out tag. rollback_compose ?R ?W
               = (out @ [Print TagUpdateSkipped], Inr (tag, example_compose))" by blast
  from update_image_tags_absent_input[where dargs = ?A and w = ?W and D = example_compose] h3
  have 3: "deploy_main ?A ?W = deploy_reconcile ?A ?W example_compose" by blast
  from 1 2 3 show ?thesis by blast
qed

subsection \<open>The requests a run sends\<close>

lemma requests_get_stack_id: "requests_of (fst (get_stack_id a e n)) = [GetStacks]"
  by (simp add: get_stack_id_def split: sum.splits)

lemma requests_update_stack:
  "requests_of (fst (update_stack a sid e C pr pl)) = [PutStack sid (update_payload C pr pl)]"
  by (simp add: update_stack_def Let_def print_response_def requests_of_append
      split: sum.splits option.splits exn.splits)

lemma requests_create_stack:
  "requests_of (fst (create_stack a e n C pr pl)) = [PostStack (create_payload n C e pr pl)]"
  by (simp add: create_stack_def Let_def print_response_def requests_of_append
      split: sum.splits option.splits exn.splits)

lemma requests_and_then:
  "requests_of (fst (and_then m f)) =
     requests_of (fst m) @ (case snd m of Inl s \<Rightarrow> [] | Inr x \<Rightarrow> requests_of (fst (f x)))"
  by (cases m; cases "snd m") (auto simp: and_then_def requests_of_append split: prod.splits)

lemma snd_and_then:
  "snd (and_then m f) = (case snd m of Inl s \<Rightarrow> Inl s | Inr x \<Rightarrow> snd (f x))"
  by (cases m; cases "snd m") (auto simp: and_then_def split: prod.splits)

lemma deploy_reconcile_requests:
  "requests_of (fst (deploy_reconcile args w C)) =
     [GetStacks,
      if py_truthy (snd (get_stack_id (portainer w) (env_id args) (stack_name args)))
      then PutStack (snd (get_stack_id (portainer w) (env_id args) (stack_name args)))
             (update_payload C (prune args) (pull args))
      else PostStack (create_payload (stack_name args) C (env_id args) (prune args) (pull args))]"
proof -
  obtain out sid where g: "get_stack_id (portainer w) (env_id args) (stack_name args) = (out, sid)"
    by (cases "get_stack_id (portainer w) (env_id args) (stack_name args)")
  have ro: "requests_of out = [GetStacks]"
    using requests_get_stack_id[of "portainer w" "env_id args" "stack_name args"] g by simp
  show ?thesis
    unfolding deploy_reconcile_def g
    by (simp add: requests_and_then snd_and_then ro say_def requests_update_stack
        requests_create_stack split: sum.splits)
qed

lemma rollback_reconcile_requests:
  "requests_of (fst (rollback_reconcile args w tag C)) =
     (if py_truthy (snd (get_stack_id (portainer w) (env_id args) (stack_name args)))
      then [GetStacks,
            PutStack (snd (get_stack_id (portainer w) (env_id args) (stack_name args)))
              (update_payload C False True)]
      else [GetStacks])"
proof -
  obtain out sid where g: "get_stack_id (portainer w) (env_id args) (stack_name args) = (out, sid)"
    by (cases "get_stack_id (portainer w) (env_id args) (stack_name args)")
  have ro: "requests_of out = [GetStacks]"
    using requests_get_stack_id[of "portainer w" "env_id args" "stack_name args"] g by simp
  show ?thesis
    unfolding rollback_reconcile_def g
    by (simp add: requests_and_then snd_and_then ro say_def requests_update_stack
        rollback_update_stack_def split: sum.splits)
qed

lemma requests_update_service: "requests_of (fst (update_service lower p t n c)) = []"
  by (simp add: update_service_def split: sum.splits bool.splits pyval.splits option.splits list.splits)

lemma requests_update_services: "requests_of (fst (update_services lower p t svs)) = []"
proof (induction svs)
  case Nil
  then show ?case by simp
next
  case (Cons a svs)
  obtain n c where a: "a = (n, c)" by (cases a)
  show ?case
    using Cons requests_update_service[where p = p and t = t and n = n and c = c and lower = lower] unfolding a
    by (auto simp: requests_of_append split: prod.splits sum.splits)
qed

lemma requests_update_services_out:
  "update_services lower p t svs = (out, res) \<Longrightarrow> requests_of out = []"
  using requests_update_services[where p = p and t = t and svs = svs and lower = lower] by simp

lemma requests_update_image_tags: "requests_of (fst (update_image_tags lower D r p t)) = []"
  by (auto simp: update_image_tags_def split: option.splits pyval.splits prod.splits sum.splits
      dest: requests_update_services_out)

lemma requests_uncaught: "requests_of (fst (uncaught m)) = requests_of (fst m)"
  by (cases m; cases "snd m") (auto simp: uncaught_def)

lemma requests_validate_args: "requests_of (fst (validate_args args w)) = []"
  by (simp add: validate_args_def Let_def)

lemma requests_read_compose_file: "requests_of (fst (read_compose_file f)) = []"
  by (simp add: read_compose_file_def split: option.splits on_disk.splits)

lemma requests_get_previous_tag: "requests_of (fst (get_previous_tag args w)) = []"
  by (auto simp: get_previous_tag_def read_artifact_tag_def query_previous_tag_from_registry_def
      Let_def requests_of_append
      split: option.splits on_disk.splits artifact_json.splits prod.splits)

lemma requests_deploy_compose: "requests_of (fst (deploy_compose args w)) = []"
  by (simp add: deploy_compose_def requests_and_then requests_validate_args
      requests_read_compose_file requests_uncaught requests_update_image_tags split: sum.splits)

lemma requests_rollback_compose: "requests_of (fst (rollback_compose args w)) = []"
  by (simp add: rollback_compose_def requests_and_then requests_validate_args
      requests_read_compose_file requests_uncaught requests_update_image_tags
      requests_get_previous_tag split: sum.splits)

lemma requests_record_rollback: "requests_of (fst (record_rollback args w tag h)) = []"
  by (simp add: record_rollback_def Let_def split: sum.splits option.splits on_disk.splits)

lemma requests_deploy_main:
  "requests_of (fst (deploy_main args w)) =
     (case snd (deploy_compose args w) of
        Inl s \<Rightarrow> []
      | Inr C \<Rightarrow> requests_of (fst (deploy_reconcile args w C)))"
  by (simp add: deploy_main_def requests_and_then requests_deploy_compose)

lemma requests_rollback_main_update:
  "requests_of (fst (rollback_main_update args w)) =
     (case snd (rollback_compose args w) of
        Inl s \<Rightarrow> []
      | Inr (tag, C) \<Rightarrow> requests_of (fst (rollback_reconcile args w tag C)))"
  by (simp add: rollback_main_update_def requests_and_then requests_rollback_compose
      split: sum.splits prod.splits)

lemma requests_record_rollback_out:
  "record_rollback args w tag h = (out, h') \<Longrightarrow> requests_of out = []"
  using requests_record_rollback[of args w tag h] by simp

lemma requests_rollback_main:
  "requests_of (fst (rollback_main args w h)) = requests_of (fst (rollback_main_update args w))"
  by (cases "rollback_main_update args w"; cases "snd (rollback_main_update args w)")
     (auto simp: rollback_main_def requests_of_append split: prod.splits
       dest: requests_record_rollback_out)

text \<open>
  Claim C10. Every update request the rollback script sends carries
  \<open>pullImage = true\<close> and \<open>prune = false\<close>: \<^verbatim>\<open>main\<close> passes \<^verbatim>\<open>pull=True\<close> and
  leaves \<^verbatim>\<open>prune\<close> to its default, and the arguments of the rollback script have no
  field that could change either.
\<close>

theorem rollback_pulls_and_never_prunes:
  "Request (PutStack sid payload) \<in> set (fst (rollback_main args w h))
     \<longrightarrow> field payload ''pullImage'' = Some (PBool True) \<and>
         field payload ''prune'' = Some (PBool False)"
proof
  assume "Request (PutStack sid payload) \<in> set (fst (rollback_main args w h))"
  then have "PutStack sid payload \<in> set (requests_of (fst (rollback_main_update args w)))"
    by (simp add: requests_of_mem requests_rollback_main)
  then obtain C where "payload = update_payload C False True"
    by (auto simp: requests_rollback_main_update rollback_reconcile_requests
        split: sum.splits prod.splits if_splits)
  then show "field payload ''pullImage'' = Some (PBool True) \<and>
         field payload ''prune'' = Some (PBool False)"
    by (simp add: update_payload_def field_def)
qed

theorem rollback_pulls_and_never_prunes_witness:
  "Request (PutStack (PInt 5) (update_payload example_rolled_back False True))
     \<in> set (fst (rollback_main example_rollback_args
                    (example_world (example_api [example_stack 5] 200)) None)) \<and>
   field (update_payload example_rolled_back False True) ''pullImage'' = Some (PBool True) \<and>
   field (update_payload example_rolled_back False True) ''prune'' = Some (PBool False)"
proof -
  have h: "Request (PutStack (PInt 5) (update_payload example_rolled_back False True))
     \<in> set (fst (rollback_main example_rollback_args
                    (example_world (example_api [example_stack 5] 200)) None))"
    by code_simp
  with rollback_pulls_and_never_prunes[where sid = "PInt 5"
      and payload = "update_payload example_rolled_back False True"
      and args = example_rollback_args
      and w = "example_world (example_api [example_stack 5] 200)" and h = None]
  show ?thesis by blast
qed

text \<open>
  The reconciliation of the deploy script sends exactly two requests, the listing and
  then one write, chosen by the test \<^verbatim>\<open>if stack_id\<close> of \<^verbatim>\<open>main\<close> on the value the
  lookup returned; a whole run sends these two and no other.
\<close>

lemma deploy_requests:
  "requests_of (fst (deploy_reconcile args w C)) =
     [GetStacks,
      if py_truthy (snd (get_stack_id (portainer w) (env_id args) (stack_name args)))
      then PutStack (snd (get_stack_id (portainer w) (env_id args) (stack_name args)))
             (update_payload C (prune args) (pull args))
      else PostStack (create_payload (stack_name args) C (env_id args) (prune args) (pull args))]
   \<and> (deploy_compose args w = (out, Inr C) \<longrightarrow>
        requests_of (fst (deploy_main args w)) = requests_of (fst (deploy_reconcile args w C)))"
  by (simp add: deploy_reconcile_requests requests_deploy_main)

text \<open>When the lookup returns no identifier one create request is sent and no update,
  and when it returns an identifier that is truthy, as every identifier other than
  \<open>0\<close> is, one update request is sent against it and no create.\<close>

lemma deploy_no_identifier_creates:
  assumes "snd (get_stack_id (portainer w) (env_id args) (stack_name args)) = PNone"
  shows "requests_of (fst (deploy_reconcile args w C)) =
           [GetStacks,
            PostStack (create_payload (stack_name args) C (env_id args) (prune args) (pull args))]"
  using assms by (simp add: deploy_reconcile_requests)

lemma deploy_truthy_identifier_updates:
  assumes "snd (get_stack_id (portainer w) (env_id args) (stack_name args)) = sid"
    and "py_truthy sid"
  shows "requests_of (fst (deploy_reconcile args w C)) =
           [GetStacks, PutStack sid (update_payload C (prune args) (pull args))]"
  using assms by (simp add: deploy_reconcile_requests)

lemma deploy_requests_example:
  "requests_of (fst (deploy_main example_deploy_args
                       (example_world (example_api [example_stack 5] 200))))
     = [GetStacks, PutStack (PInt 5) (update_payload example_rewritten False False)] \<and>
   requests_of (fst (deploy_main example_deploy_args (example_world (example_api [] 200))))
     = [GetStacks, PostStack (create_payload (Some ''qa-stack'') example_rewritten 1 False False)]"
  by code_simp

text \<open>
  Claim C2. If the lookup returns no identifier, one create request is sent and no
  update; if it returns an identifier, one update request is sent against it and no
  create. The code does the first (\<open>deploy_no_identifier_creates\<close>), and the second
  for every identifier that is truthy (\<open>deploy_truthy_identifier_updates\<close>). It
  departs from the claim when the lookup returns an identifier that is falsy, the
  integer \<open>0\<close>: \<^verbatim>\<open>main\<close> tests \<^verbatim>\<open>if stack_id\<close> where it means
  \<^verbatim>\<open>if stack_id is not None\<close>, so it takes the stack that the listing shows for one
  that does not exist, and sends a create request and no update.
\<close>

theorem deploy_falsy_identifier_creates:
  assumes "snd (get_stack_id (portainer w) (env_id args) (stack_name args)) = sid"
    and "sid \<noteq> PNone"
    and "\<not> py_truthy sid"
  shows "requests_of (fst (deploy_reconcile args w C)) =
           [GetStacks,
            PostStack (create_payload (stack_name args) C (env_id args) (prune args) (pull args))]"
  using assms by (simp add: deploy_reconcile_requests)

theorem deploy_falsy_identifier_creates_witness:
  "snd (get_stack_id (portainer (example_world (example_api [example_stack 0] 200)))
          (env_id example_deploy_args) (stack_name example_deploy_args)) = PInt 0 \<and>
   PInt 0 \<noteq> PNone \<and>
   \<not> py_truthy (PInt 0) \<and>
   requests_of (fst (deploy_reconcile example_deploy_args
                       (example_world (example_api [example_stack 0] 200)) example_rewritten))
     = [GetStacks, PostStack (create_payload (Some ''qa-stack'') example_rewritten 1 False False)]"
proof -
  let ?A = example_deploy_args
  let ?W = "example_world (example_api [example_stack 0] 200)"
  have s: "snd (get_stack_id (portainer ?W) (env_id ?A) (stack_name ?A)) = PInt 0" by code_simp
  have p: "prune ?A = False" "pull ?A = False" "env_id ?A = 1" "stack_name ?A = Some ''qa-stack''"
    by code_simp+
  have f: "PInt 0 \<noteq> PNone" "\<not> py_truthy (PInt 0)" by simp_all
  from deploy_falsy_identifier_creates[OF s f, where C = example_rewritten] p s f
  show ?thesis by simp
qed

text \<open>The whole run of the deploy script on that listing, and the run of the rollback
  script, whose \<^verbatim>\<open>main\<close> tests \<^verbatim>\<open>if not stack_id\<close>: it reports the listed stack
  as not found and exits with status 1 without sending an update.\<close>

lemma deploy_zero_id_creates:
  "snd (get_stack_id (example_api [example_stack 0] 200) 1 (Some ''qa-stack'')) = PInt 0 \<and>
   requests_of (fst (deploy_main example_deploy_args
                       (example_world (example_api [example_stack 0] 200))))
     = [GetStacks, PostStack (create_payload (Some ''qa-stack'') example_rewritten 1 False False)]"
  by code_simp

lemma rollback_zero_id_not_found:
  "requests_of (fst (rollback_main_update example_rollback_args
                       (example_world (example_api [example_stack 0] 200)))) = [GetStacks] \<and>
   Print (StackNotFound (Some ''qa-stack''))
     \<in> set (fst (rollback_main_update example_rollback_args
                    (example_world (example_api [example_stack 0] 200)))) \<and>
   snd (rollback_main_update example_rollback_args
          (example_world (example_api [example_stack 0] 200))) = Inl (SysExit 1)"
  by code_simp

subsection \<open>A write call that fails\<close>

lemma print_response_raised: "raise_for_status r = Inl e \<Longrightarrow> print_response e = []"
  by (auto simp: raise_for_status_def print_response_def response_ok_def split: if_splits)
















text \<open>
  Whether the response body is printed. The test \<^verbatim>\<open>e.response\<close> is the truth value of
  a response object, which is false for every response that \<^verbatim>\<open>raise_for_status\<close>
  rejects: after such a response the body is not printed. It is printed when the
  request itself raises and the exception carries a response with a status below 400,
  as a redirect loop does.
\<close>

lemma update_stack_error_status_prints_no_body:
  assumes "put_stack a sid (update_payload C pr pl) = Responds r"
  shows "Print (ResponseBody b) \<notin> set (fst (update_stack a sid e C pr pl))"
  using assms
  by (auto simp: update_stack_def Let_def split: sum.splits dest!: print_response_raised)

lemma create_stack_error_status_prints_no_body:
  assumes "post_stack a (create_payload n C e pr pl) = Responds r"
    and "raise_for_status r \<noteq> Inr ()"
  shows "Print (ResponseBody b) \<notin> set (fst (create_stack a e n C pr pl))"
  using assms
  by (auto simp: create_stack_def Let_def split: sum.splits dest!: print_response_raised)

lemma redirect_loop_prints_body:
  "fst (update_stack redirect_loop_api (PInt 5) 1 example_rolled_back False True)
     = [Request (PutStack (PInt 5) (update_payload example_rolled_back False True)),
        Print (UpdateError (RequestException
                 (Some \<lparr>status_code = 302, body_text = ''moved'', body_json = None\<rparr>))),
        Print (ResponseBody ''moved'')]"
  by code_simp

subsection \<open>The rollback history\<close>

lemma record_rollback_appends:
  assumes "can_record (args, w)" "prior_records h = Some old"
  shows "record_rollback args w tag h =
           ([], Some (Content (PList (old @ [rollback_record args w tag]))))"
  using assms
  by (auto simp: record_rollback_def can_record_def prior_records_def Let_def
      split: option.splits on_disk.splits pyval.splits)

lemma record_rollback_corrupt:
  "record_rollback args w tag (Some (Unreadable e)) =
     ([Print (HistoryWarning e)], Some (Unreadable e))"
  by (simp add: record_rollback_def)

lemma rollback_main_recorded:
  "rollback_main_update args w = (out, Inr tag) \<Longrightarrow>
     rollback_main args w h =
       (out @ fst (record_rollback args w tag h), Inr (), snd (record_rollback args w tag h))"
  by (simp add: rollback_main_def split: prod.splits)

lemma rollback_runs_append:
  "list_all run_succeeds runs \<Longrightarrow> list_all can_record runs \<Longrightarrow> prior_records h = Some old \<Longrightarrow>
     prior_records (rollback_runs runs h) = Some (old @ map run_record runs)"
proof (induction runs arbitrary: h old)
  case Nil
  then show ?case by simp
next
  case (Cons a runs)
  obtain args w where a: "a = (args, w)" by (cases a)
  from Cons.prems(1) a obtain out tag where u: "rollback_main_update args w = (out, Inr tag)"
    by (cases "rollback_main_update args w"; cases "snd (rollback_main_update args w)")
       (auto simp: run_succeeds_def)
  from Cons.prems(2) a have cr: "can_record (args, w)" by simp
  have rec: "run_record (args, w) = rollback_record args w tag"
    using u by (simp add: run_record_def)
  have h': "snd (snd (rollback_main args w h)) =
              Some (Content (PList (old @ [rollback_record args w tag])))"
    by (simp add: rollback_main_recorded[OF u] record_rollback_appends[OF cr Cons.prems(3)])
  have "prior_records (snd (snd (rollback_main args w h))) = Some (old @ [rollback_record args w tag])"
    unfolding h' by (simp add: prior_records_def)
  from Cons.IH[OF _ _ this] Cons.prems a rec show ?case by simp
qed

lemma rollback_main_corrupt:
  "snd (snd (rollback_main args w (Some (Unreadable e)))) = Some (Unreadable e)"
  by (cases "rollback_main_update args w"; cases "snd (rollback_main_update args w)")
     (auto simp: rollback_main_def record_rollback_corrupt)

lemma rollback_runs_corrupt:
  "rollback_runs runs (Some (Unreadable e)) = Some (Unreadable e)"
  by (induction runs) (auto simp: rollback_main_corrupt)

lemma rollback_main_never_fatal:
  assumes "run_succeeds (args, w)"
  shows "fst (snd (rollback_main args w h)) = Inr ()"
proof -
  from assms obtain out tag where u: "rollback_main_update args w = (out, Inr tag)"
    by (cases "rollback_main_update args w"; cases "snd (rollback_main_update args w)")
       (auto simp: run_succeeds_def)
  show ?thesis by (simp add: rollback_main_recorded[OF u])
qed

lemma rollback_main_corrupt_warns:
  assumes "run_succeeds (args, w)"
  shows "Print (HistoryWarning e) \<in> set (fst (rollback_main args w (Some (Unreadable e))))"
proof -
  from assms obtain out tag where u: "rollback_main_update args w = (out, Inr tag)"
    by (cases "rollback_main_update args w"; cases "snd (rollback_main_update args w)")
       (auto simp: run_succeeds_def)
  show ?thesis by (simp add: rollback_main_recorded[OF u] record_rollback_corrupt)
qed

text \<open>
  Claim C4, as the code has it. After invocations that each complete the rollback and
  can write the history file, a file that was missing or held a JSON array holds the
  earlier records followed by one record per invocation, in invocation order. A history
  file that cannot be read or parsed stays as it is, whatever the number of
  invocations: no record is appended, and the warning is printed. No state of the
  history file makes a completed rollback exit with an error.
\<close>

theorem rollback_history_records:
  "(list_all run_succeeds runs \<and> list_all can_record runs \<and> prior_records h = Some old
      \<longrightarrow> prior_records (rollback_runs runs h) = Some (old @ map run_record runs)) \<and>
   rollback_runs runs (Some (Unreadable e)) = Some (Unreadable e) \<and>
   (run_succeeds (args, w)
      \<longrightarrow> fst (snd (rollback_main args w h)) = Inr () \<and>
          Print (HistoryWarning e) \<in> set (fst (rollback_main args w (Some (Unreadable e)))))"
  using rollback_runs_append[of runs h old] rollback_runs_corrupt[of runs e]
    rollback_main_never_fatal[of args w h] rollback_main_corrupt_warns[of args w e]
  by blast

theorem rollback_history_records_witness:
  "prior_records (rollback_runs
      [(example_rollback_args, example_world (example_api [example_stack 5] 200)),
       (example_rollback_args\<lparr>previous_tag := Some ''v1''\<rparr>,
        example_world (example_api [example_stack 5] 200))] None)
     = Some [example_record,
             PDict [(''timestamp'', PStr ''2024-01-01 00:00:00''),
                    (''stack'', PStr ''qa-stack''),
                    (''environment'', PStr ''release/2.0''),
                    (''rolled_back_to'', PStr ''v1'')]] \<and>
   fst (snd (rollback_main example_rollback_args
               (example_world (example_api [example_stack 5] 200))
               (Some (Unreadable JSONDecodeError)))) = Inr ()"
proof -
  let ?W = "example_world (example_api [example_stack 5] 200)"
  let ?runs = "[(example_rollback_args, ?W), (example_rollback_args\<lparr>previous_tag := Some ''v1''\<rparr>, ?W)]"
  have h: "list_all run_succeeds ?runs \<and> list_all can_record ?runs \<and> prior_records None = Some []"
    by code_simp
  have s: "run_succeeds (example_rollback_args, ?W)" by code_simp
  have r: "map run_record ?runs = [example_record,
             PDict [(''timestamp'', PStr ''2024-01-01 00:00:00''),
                    (''stack'', PStr ''qa-stack''),
                    (''environment'', PStr ''release/2.0''),
                    (''rolled_back_to'', PStr ''v1'')]]" by code_simp
  from rollback_history_records[where runs = ?runs and h = None and old = "[]"] h r
  have 1: "prior_records (rollback_runs ?runs None) = Some [example_record,
             PDict [(''timestamp'', PStr ''2024-01-01 00:00:00''),
                    (''stack'', PStr ''qa-stack''),
                    (''environment'', PStr ''release/2.0''),
                    (''rolled_back_to'', PStr ''v1'')]]"
    by simp
  from rollback_history_records[where args = example_rollback_args and w = ?W
      and h = "Some (Unreadable JSONDecodeError)"] s
  have 2: "fst (snd (rollback_main example_rollback_args ?W
                       (Some (Unreadable JSONDecodeError)))) = Inr ()"
    by blast
  from 1 2 show ?thesis by blast
qed

text \<open>
  The claim as stated fails on a corrupted history file: the rollback completes, the
  file is still the corrupted one, while the same run on a missing file writes the
  record.
\<close>

theorem corrupted_history_gets_no_record:
  "fst (snd (rollback_main example_rollback_args (example_world (example_api [example_stack 5] 200))
               (Some (Unreadable JSONDecodeError)))) = Inr () \<and>
   snd (snd (rollback_main example_rollback_args (example_world (example_api [example_stack 5] 200))
               (Some (Unreadable JSONDecodeError)))) = Some (Unreadable JSONDecodeError) \<and>
   snd (snd (rollback_main example_rollback_args (example_world (example_api [example_stack 5] 200))
               None)) = Some (Content (PList [example_record]))"
  by code_simp

end
